theory Spec2Isabelle
  imports Main "HOL-Library.AList"
begin

section \<open>JavaScript values and strings\<close>

text \<open>
  Values that cross the JSON boundary (the upstream portal's payloads and the records of
  the Redis cache). A property that is not there reads as \<open>undefined\<close>, modelled as
  \<open>None\<close>; \<open>JNull\<close> is JavaScript's \<open>null\<close>. Strings are lists of 8-bit code units.
\<close>

datatype jv =
    JNull
  | JBool bool
  | JNum int
  | JStr string
  | JArr "jv list"
  | JObj "(string \<times> jv) list"

text \<open>JavaScript truthiness, as \<open>if (v)\<close> and \<open>!v\<close> read a value.\<close>

fun truthy :: "jv \<Rightarrow> bool" where
  "truthy JNull = False"
| "truthy (JBool b) = b"
| "truthy (JNum n) = (n \<noteq> 0)"
| "truthy (JStr s) = (s \<noteq> [])"
| "truthy (JArr xs) = True"
| "truthy (JObj kvs) = True"

text \<open>\<open>v.k\<close> on a value that is not \<open>null\<close>: only objects carry named properties here.\<close>

fun field :: "jv \<Rightarrow> string \<Rightarrow> jv option" where
  "field (JObj kvs) k = map_of kvs k"
| "field v k = None"

text \<open>Truthiness of \<open>v.k\<close>, where \<open>undefined\<close> is falsy.\<close>

definition truthy_field :: "jv \<Rightarrow> string \<Rightarrow> bool" where
  "truthy_field v k = (case field v k of None \<Rightarrow> False | Some x \<Rightarrow> truthy x)"

text \<open>\<open>Object.keys(v).length\<close> for a truthy value \<open>v\<close>.\<close>

fun keys_length :: "jv \<Rightarrow> nat" where
  "keys_length (JObj kvs) = length kvs"
| "keys_length (JArr xs) = length xs"
| "keys_length (JStr s) = length s"
| "keys_length v = 0"

text \<open>\<open>s.startsWith(p)\<close> and \<open>s.endsWith(p)\<close>.\<close>

definition startsWith :: "string \<Rightarrow> string \<Rightarrow> bool" where
  "startsWith s p = (take (length p) s = p)"

definition endsWith :: "string \<Rightarrow> string \<Rightarrow> bool" where
  "endsWith s p = (length p \<le> length s \<and> drop (length s - length p) s = p)"

text \<open>The white space \<open>String.prototype.trim\<close> removes, among 8-bit code units.\<close>

definition is_ws :: "char \<Rightarrow> bool" where
  "is_ws c = (c = CHR 0x09 \<or> c = CHR 0x0A \<or> c = CHR 0x0B \<or> c = CHR 0x0C \<or> c = CHR 0x0D
     \<or> c = CHR 0x20 \<or> c = CHR 0xA0)"

definition trim :: "string \<Rightarrow> string" where
  "trim s = rev (dropWhile is_ws (rev (dropWhile is_ws s)))"

text \<open>\<open>s.split(sep)\<close> for a one-character separator: never the empty list.\<close>

fun split_on :: "char \<Rightarrow> string \<Rightarrow> string list" where
  "split_on sep [] = [[]]"
| "split_on sep (c # cs) =
     (if c = sep then [] # split_on sep cs
      else (case split_on sep cs of
              [] \<Rightarrow> [[c]]
            | p # ps \<Rightarrow> (c # p) # ps))"

text \<open>\<open>s.replace(/\/$/, '')\<close> and \<open>s.replace(/^\//, '')\<close>: at most one slash goes.\<close>

definition strip_trailing_slash :: "string \<Rightarrow> string" where
  "strip_trailing_slash s = (if endsWith s ''/'' then butlast s else s)"

definition strip_leading_slash :: "string \<Rightarrow> string" where
  "strip_leading_slash s = (if startsWith s ''/'' then tl s else s)"

section \<open>The upstream portal and the token store (engage-api/get-activity.ts)\<close>

text \<open>
  What a response body turns out to be when \<open>getActivityDetailsRaw\<close> parses it:
  \<open>JSON.parse(response.data)\<close> throws (\<open>BodyBad\<close>); it parses but is falsy or has no string
  \<open>d\<close> (\<open>BodyNoD\<close>); or it has a string \<open>d\<close>, whose own \<open>JSON.parse\<close> throws (\<open>InnerBad\<close>) or
  yields a value.
\<close>

datatype inner = InnerBad | InnerJson jv

datatype body = BodyBad | BodyNoD | BodyD inner

text \<open>
  One answer of the portal to one HTTP request: no response at all (network error,
  timeout), or a status with its \<open>Set-Cookie\<close> headers and its body.
\<close>

datatype http_result = NoResponse | Response nat "string list" body

text \<open>
  What a \<open>catch\<close> can receive. An axios error carries \<open>error.response.status\<close> when the
  portal answered; \<open>AuthenticationError\<close> is the module's own class with its \<open>status\<close>.
\<close>

datatype exn =
    AuthenticationError nat
  | AxiosError "nat option"
  | JsError
  | FsError
  | LoginError

text \<open>
  The world outside the module, which it reads and never changes. The portal is a
  script: the \<open>n\<close>-th HTTP request of a run is answered by \<open>upstream n\<close>, whatever it asks.
  In the same way the \<open>n\<close>-th operation on the file system fails with an I/O error when
  \<open>fs_faults n\<close> holds. \<open>templateFile\<close> says whether the login template is on disk.
\<close>

record portal =
  upstream :: "nat \<Rightarrow> http_result"
  templateFile :: bool
  fs_faults :: "nat \<Rightarrow> bool"

text \<open>
  The state the module changes. \<open>inMemoryCookie\<close> is the module variable
  \<open>_inMemoryCookie\<close>, \<open>cookieFile\<close> the content of \<open>nkcs-engage.cookie.txt\<close> (\<open>None\<close>: no
  such file). \<open>calls\<close> counts the HTTP requests made and \<open>fs_ops\<close> the operations on the
  file system; \<open>sleeps\<close> collects the delays of \<open>setTimeout\<close>, in ms.
\<close>

record world =
  inMemoryCookie :: "string option"
  cookieFile :: "string option"
  calls :: nat
  fs_ops :: nat
  sleeps :: "nat list"

text \<open>The next operation on the file system: whether it fails, and the state after it.\<close>

definition fs_op :: "'p portal_scheme \<Rightarrow> 'a world_scheme \<Rightarrow> bool \<times> 'a world_scheme" where
  "fs_op E w = (fs_faults E (fs_ops w), w\<lparr>fs_ops := fs_ops w + 1\<rparr>)"

text \<open>
  One axios request. axios throws when there is no response and when \<open>validateStatus\<close>
  refuses the status (by default everything outside 200..299).
\<close>

definition status_2xx :: "nat \<Rightarrow> bool" where
  "status_2xx st = (200 \<le> st \<and> st < 300)"

definition axios_request ::
  "'p portal_scheme \<Rightarrow> (nat \<Rightarrow> bool) \<Rightarrow> 'a world_scheme
     \<Rightarrow> (exn + (string list \<times> body)) \<times> 'a world_scheme" where
  "axios_request E validateStatus w =
     (let w' = w\<lparr>calls := calls w + 1\<rparr> in
      case upstream E (calls w) of
        NoResponse \<Rightarrow> (Inl (AxiosError None), w')
      | Response st hs d \<Rightarrow>
          if validateStatus st then (Inr (hs, d), w') else (Inl (AxiosError (Some st)), w'))"

subsection \<open>Cookie cache helpers\<close>

text \<open>Truthiness of a \<open>string | null\<close>.\<close>

definition str_truthy :: "string option \<Rightarrow> bool" where
  "str_truthy c = (case c of None \<Rightarrow> False | Some s \<Rightarrow> s \<noteq> [])"

definition loadCachedCookie ::
  "'p portal_scheme \<Rightarrow> 'a world_scheme \<Rightarrow> string option \<times> 'a world_scheme" where
  "loadCachedCookie E w =
     (if str_truthy (inMemoryCookie w) then (inMemoryCookie w, w)
      else (case fs_op E w of
              (True, w1) \<Rightarrow> (None, w1)
            | (False, w1) \<Rightarrow>
                (case cookieFile w1 of
                   None \<Rightarrow> (None, w1)
                 | Some cookieFromFile \<Rightarrow>
                     if cookieFromFile \<noteq> []
                     then (Some cookieFromFile, w1\<lparr>inMemoryCookie := Some cookieFromFile\<rparr>)
                     else (None, w1))))"

definition saveCookieToCache ::
  "'p portal_scheme \<Rightarrow> string \<Rightarrow> 'a world_scheme \<Rightarrow> 'a world_scheme" where
  "saveCookieToCache E cookieString w =
     (if cookieString = [] then w
      else (case fs_op E (w\<lparr>inMemoryCookie := Some cookieString\<rparr>) of
              (True, w1) \<Rightarrow> w1
            | (False, w1) \<Rightarrow> w1\<lparr>cookieFile := Some cookieString\<rparr>))"

definition clearCookieCache :: "'p portal_scheme \<Rightarrow> 'a world_scheme \<Rightarrow> 'a world_scheme" where
  "clearCookieCache E w =
     (case fs_op E (w\<lparr>inMemoryCookie := None\<rparr>) of
        (True, w1) \<Rightarrow> w1
      | (False, w1) \<Rightarrow> w1\<lparr>cookieFile := None\<rparr>)"

subsection \<open>The validity probe\<close>

function testCookieValidity_loop ::
  "'p portal_scheme \<Rightarrow> nat \<Rightarrow> 'a world_scheme \<Rightarrow> bool \<times> 'a world_scheme" where
  "testCookieValidity_loop E attempt w =
     (if attempt < 3 then
        (case axios_request E status_2xx w of
           (Inr r, w1) \<Rightarrow> (True, w1)
         | (Inl e, w1) \<Rightarrow>
             if attempt + 1 \<ge> 3 then (False, w1)
             else testCookieValidity_loop E (attempt + 1) w1)
      else (False, w))"
  by pat_completeness auto
termination
  by (relation "measure (\<lambda>(E, attempt, w). 3 - attempt)") auto

declare testCookieValidity_loop.simps [simp del]

definition testCookieValidity ::
  "'p portal_scheme \<Rightarrow> string \<Rightarrow> 'a world_scheme \<Rightarrow> bool \<times> 'a world_scheme" where
  "testCookieValidity E cookieString w =
     (if cookieString = [] then (False, w) else testCookieValidity_loop E 0 w)"

subsection \<open>The login handshake\<close>

definition getSessionId ::
  "'p portal_scheme \<Rightarrow> 'a world_scheme \<Rightarrow> (exn + string option) \<times> 'a world_scheme" where
  "getSessionId E w =
     (case axios_request E status_2xx w of
        (Inl e, w1) \<Rightarrow> (Inl e, w1)
      | (Inr (setCookieHeader, d), w1) \<Rightarrow>
          if setCookieHeader \<noteq> [] then
            (case find (\<lambda>cookie. startsWith (trim cookie) ''ASP.NET_SessionId='') setCookieHeader of
               Some sessionIdCookie \<Rightarrow>
                 (let p = hd (split_on CHR '';'' sessionIdCookie)
                  in (Inr (if p \<noteq> [] then Some p else None), w1))
             | None \<Rightarrow> (Inr None, w1))
          else (Inr None, w1))"

text \<open>
  The loop of \<open>getMSAUTH\<close> over the candidates, from the last index down to 0:
  \<open>getMSAUTH_loop cs n\<close> is the loop at \<open>i = n - 1\<close>, and at \<open>n = 0\<close> it has run out.
\<close>

fun getMSAUTH_loop :: "string list \<Rightarrow> nat \<Rightarrow> string option" where
  "getMSAUTH_loop aspxAuthCookies 0 = None"
| "getMSAUTH_loop aspxAuthCookies (Suc i) =
     (let cookieCandidateParts = split_on CHR '';'' (aspxAuthCookies ! i) in
      if length cookieCandidateParts > 0 then
        (let firstPart = trim (hd cookieCandidateParts) in
         if length firstPart > length ''.ASPXFORMSAUTH=''
            \<and> length (drop (length ''.ASPXFORMSAUTH='') firstPart) > 0
         then Some firstPart
         else getMSAUTH_loop aspxAuthCookies i)
      else getMSAUTH_loop aspxAuthCookies i)"

text \<open>What \<open>getMSAUTH\<close> makes of the \<open>Set-Cookie\<close> headers of the form submission's response.\<close>

definition formsAuthCookieValue :: "string list \<Rightarrow> string option" where
  "formsAuthCookieValue setCookieHeader =
     (if setCookieHeader \<noteq> [] then
        (let aspxAuthCookies =
               filter (\<lambda>cookie. startsWith (trim cookie) ''.ASPXFORMSAUTH='') setCookieHeader
         in if length aspxAuthCookies > 0
            then getMSAUTH_loop aspxAuthCookies (length aspxAuthCookies)
            else None)
      else None)"

definition status_2xx_3xx :: "nat \<Rightarrow> bool" where
  "status_2xx_3xx st = (200 \<le> st \<and> st < 400)"

text \<open>
  \<open>getMSAUTH\<close>: reading the template can fail (no such file, or an I/O error), the POST can
  throw; both are logged and thrown again. The form data built from the template and the
  credentials goes into the request, which the scripted portal does not read.
\<close>

definition getMSAUTH ::
  "'p portal_scheme \<Rightarrow> string \<Rightarrow> string \<Rightarrow> string \<Rightarrow> 'a world_scheme
     \<Rightarrow> (exn + string option) \<times> 'a world_scheme" where
  "getMSAUTH E sessionId userName userPwd w =
     (case fs_op E w of
        (True, w1) \<Rightarrow> (Inl FsError, w1)
      | (False, w1) \<Rightarrow>
          if \<not> templateFile E then (Inl FsError, w1)
          else (case axios_request E status_2xx_3xx w1 of
                  (Inl e, w2) \<Rightarrow> (Inl e, w2)
                | (Inr (setCookieHeader, d), w2) \<Rightarrow>
                    (case formsAuthCookieValue setCookieHeader of
                       Some v \<Rightarrow> if v \<noteq> [] then (Inr (Some v), w2) else (Inr None, w2)
                     | None \<Rightarrow> (Inr None, w2))))"

definition getCompleteCookies ::
  "'p portal_scheme \<Rightarrow> string \<Rightarrow> string \<Rightarrow> 'a world_scheme
     \<Rightarrow> (exn + string) \<times> 'a world_scheme" where
  "getCompleteCookies E userName userPwd w =
     (case getSessionId E w of
        (Inl e, w1) \<Rightarrow> (Inl e, w1)
      | (Inr None, w1) \<Rightarrow> (Inl LoginError, w1)
      | (Inr (Some sessionId), w1) \<Rightarrow>
          (case getMSAUTH E sessionId userName userPwd w1 of
             (Inl e, w2) \<Rightarrow> (Inl e, w2)
           | (Inr None, w2) \<Rightarrow> (Inl LoginError, w2)
           | (Inr (Some msAuth), w2) \<Rightarrow> (Inr (sessionId @ ''; '' @ msAuth), w2)))"

subsection \<open>The fetch client\<close>

text \<open>
  What one attempt of \<open>getActivityDetailsRaw\<close> comes to, read off the portal's answer:
  the \<open>try\<close> block throws (an axios error, or a \<open>SyntaxError\<close>/\<open>TypeError\<close> of the parsing
  steps), or finds no string \<open>d\<close> and falls out of the \<open>try\<close>, or returns \<open>null\<close> on
  \<open>isError\<close>, or returns the response text.
\<close>

datatype attempt_result = Thrown exn | Unexpected | NoData | Data body

definition attempt_result :: "http_result \<Rightarrow> attempt_result" where
  "attempt_result r =
     (case r of
        NoResponse \<Rightarrow> Thrown (AxiosError None)
      | Response st hs d \<Rightarrow>
          if \<not> status_2xx st then Thrown (AxiosError (Some st))
          else (case d of
                  BodyBad \<Rightarrow> Thrown JsError
                | BodyNoD \<Rightarrow> Unexpected
                | BodyD InnerBad \<Rightarrow> Thrown JsError
                | BodyD (InnerJson JNull) \<Rightarrow> Thrown JsError
                | BodyD (InnerJson innerData) \<Rightarrow>
                    if truthy_field innerData ''isError'' then NoData else Data d))"

text \<open>The test of the \<open>catch\<close>: \<open>error.response\<close> is there and its status is in 400..499.\<close>

definition is_auth_status :: "exn \<Rightarrow> nat option" where
  "is_auth_status e =
     (case e of
        AxiosError (Some st) \<Rightarrow> if 400 \<le> st \<and> st < 500 then Some st else None
      | _ \<Rightarrow> None)"

function getActivityDetailsRaw_loop ::
  "'p portal_scheme \<Rightarrow> nat \<Rightarrow> nat \<Rightarrow> 'a world_scheme
     \<Rightarrow> (exn + body option) \<times> 'a world_scheme" where
  "getActivityDetailsRaw_loop E maxRetries attempt w =
     (if attempt < maxRetries then
        (let w1 = w\<lparr>calls := calls w + 1\<rparr> in
         case attempt_result (upstream E (calls w)) of
           Data d \<Rightarrow> (Inr (Some d), w1)
         | NoData \<Rightarrow> (Inr None, w1)
         | Unexpected \<Rightarrow> getActivityDetailsRaw_loop E maxRetries (attempt + 1) w1
         | Thrown e \<Rightarrow>
             (case is_auth_status e of
                Some st \<Rightarrow> (Inl (AuthenticationError st), w1)
              | None \<Rightarrow>
                  if attempt = maxRetries - 1 then (Inl e, w1)
                  else getActivityDetailsRaw_loop E maxRetries (attempt + 1)
                         (w1\<lparr>sleeps := sleeps w1 @ [1000 * (attempt + 1)]\<rparr>)))
      else (Inr None, w))"
  by pat_completeness auto
termination
  by (relation "measure (\<lambda>(E, maxRetries, attempt, w). maxRetries - attempt)") auto

declare getActivityDetailsRaw_loop.simps [simp del]

definition getActivityDetailsRaw ::
  "'p portal_scheme \<Rightarrow> string \<Rightarrow> string \<Rightarrow> nat \<Rightarrow> 'a world_scheme
     \<Rightarrow> (exn + body option) \<times> 'a world_scheme" where
  "getActivityDetailsRaw E activityId cookies maxRetries w =
     getActivityDetailsRaw_loop E maxRetries 0 w"

subsection \<open>The fetch orchestrator\<close>

text \<open>
  \<open>JSON.parse(JSON.parse(raw).d)\<close>, on a text that \<open>getActivityDetailsRaw\<close> returned.
\<close>

definition parse_details :: "body \<Rightarrow> exn + jv" where
  "parse_details raw =
     (case raw of
        BodyD (InnerJson v) \<Rightarrow> Inr v
      | _ \<Rightarrow> Inl JsError)"

text \<open>The body of either \<open>try\<close> around a fetch: the call, and the parsing of what it returns.\<close>

definition fetch_and_parse ::
  "'p portal_scheme \<Rightarrow> string \<Rightarrow> string \<Rightarrow> 'a world_scheme \<Rightarrow> (exn + jv) \<times> 'a world_scheme" where
  "fetch_and_parse E activityId currentCookie w =
     (case getActivityDetailsRaw E activityId currentCookie 3 w of
        (Inl e, w1) \<Rightarrow> (Inl e, w1)
      | (Inr None, w1) \<Rightarrow> (Inr JNull, w1)
      | (Inr (Some rawActivityDetailsString), w1) \<Rightarrow>
          (case parse_details rawActivityDetailsString of
             Inl e \<Rightarrow> (Inl e, w1)
           | Inr v \<Rightarrow> (Inr v, w1)))"

text \<open>
  The \<open>catch\<close> of the first fetch on an \<open>AuthenticationError\<close>: clear the token store, log
  in again, save the new token, fetch once more; whatever is thrown in there is caught
  and gives \<open>null\<close>.
\<close>

definition relogin_and_retry ::
  "'p portal_scheme \<Rightarrow> string \<Rightarrow> string \<Rightarrow> string \<Rightarrow> 'a world_scheme
     \<Rightarrow> (exn + jv) \<times> 'a world_scheme" where
  "relogin_and_retry E activityId userName userPwd w =
     (case getCompleteCookies E userName userPwd (clearCookieCache E w) of
        (Inl e, w1) \<Rightarrow> (Inr JNull, w1)
      | (Inr currentCookie, w1) \<Rightarrow>
          (case fetch_and_parse E activityId currentCookie (saveCookieToCache E currentCookie w1) of
             (Inl e, w2) \<Rightarrow> (Inr JNull, w2)
           | (Inr v, w2) \<Rightarrow> (Inr v, w2)))"

text \<open>From the check \<open>if (!currentCookie) return null\<close> to the end of the function.\<close>

definition fetch_with_cookie ::
  "'p portal_scheme \<Rightarrow> string \<Rightarrow> string \<Rightarrow> string \<Rightarrow> string option \<Rightarrow> 'a world_scheme
     \<Rightarrow> (exn + jv) \<times> 'a world_scheme" where
  "fetch_with_cookie E activityId userName userPwd currentCookie w =
     (case currentCookie of
        None \<Rightarrow> (Inr JNull, w)
      | Some c \<Rightarrow>
          if c = [] then (Inr JNull, w)
          else (case fetch_and_parse E activityId c w of
                  (Inr v, w1) \<Rightarrow> (Inr v, w1)
                | (Inl (AuthenticationError st), w1) \<Rightarrow>
                    relogin_and_retry E activityId userName userPwd w1
                | (Inl e, w1) \<Rightarrow> (Inr JNull, w1)))"

text \<open>
  \<open>fetchActivityData\<close>. Its result is a sum so that a throw would show as \<open>Inl\<close>; \<open>null\<close> is
  \<open>Inr JNull\<close>.
\<close>

definition fetchActivityData ::
  "'p portal_scheme \<Rightarrow> string \<Rightarrow> string \<Rightarrow> string \<Rightarrow> bool \<Rightarrow> 'a world_scheme
     \<Rightarrow> (exn + jv) \<times> 'a world_scheme" where
  "fetchActivityData E activityId userName userPwd forceLogin w =
     (let (currentCookie, w1) = (if forceLogin then (None, w) else loadCachedCookie E w);
          (currentCookie, w2) =
            (if forceLogin \<and> str_truthy currentCookie then (None, clearCookieCache E w1)
             else (currentCookie, w1));
          (currentCookie, w3) =
            (case currentCookie of
               None \<Rightarrow> (None, w2)
             | Some c \<Rightarrow>
                 if c = [] then (currentCookie, w2)
                 else (case testCookieValidity E c w2 of
                         (isValid, w') \<Rightarrow>
                           if \<not> isValid then (None, clearCookieCache E w')
                           else (currentCookie, w')))
      in if \<not> str_truthy currentCookie then
           (case getCompleteCookies E userName userPwd w3 of
              (Inl loginError, w4) \<Rightarrow> (Inr JNull, w4)
            | (Inr c, w4) \<Rightarrow>
                fetch_with_cookie E activityId userName userPwd (Some c)
                  (saveCookieToCache E c w4))
         else fetch_with_cookie E activityId userName userPwd currentCookie w3)"

section \<open>Configuration and the outside world of the cache manager\<close>

text \<open>
  The environment variables the services read at start-up; \<open>None\<close> is a variable that is
  not set. The numeric ones are given as \<open>parseInt\<close> read them.
\<close>

record config =
  API_USERNAME :: "string option"
  API_PASSWORD :: "string option"
  MIN_ACTIVITY_ID_SCAN :: int
  MAX_ACTIVITY_ID_SCAN :: int
  CLUB_UPDATE_INTERVAL_MINS :: int
  STAFF_UPDATE_INTERVAL_MINS :: int
  FIXED_STAFF_ACTIVITY_ID :: "string option"
  S3_ENDPOINT :: "string option"
  S3_BUCKET_NAME :: "string option"
  S3_ACCESS_KEY_ID :: "string option"
  S3_SECRET_ACCESS_KEY :: "string option"
  S3_PUBLIC_URL_PREFIX :: "string option"

text \<open>A variable used as a string (\<open>USERNAME as string\<close>).\<close>

definition env_str :: "string option \<Rightarrow> string" where
  "env_str v = (case v of None \<Rightarrow> [] | Some x \<Rightarrow> x)"

text \<open>
  What the cache manager reads and never changes, on top of the portal: whether the Redis
  and S3 clients could be built, the script of I/O errors of Redis and of S3, the clock
  (the \<open>n\<close>-th reading gives \<open>clock n\<close>, in ms) and the UUIDs drawn, and the library and
  normalizer functions, which are parameters: \<open>toISOString\<close> and \<open>getTime\<close> of \<open>Date\<close>
  (\<open>None\<close> is \<open>NaN\<close>), the two normalizers (\<open>structStaffData\<close> reads and updates a map kept
  in the module, and may throw after changing it), \<open>extractBase64Image\<close>, and whether
  decoding and converting an image to AVIF succeeds.
\<close>

record env = portal +
  redisClient :: bool
  redis_faults :: "nat \<Rightarrow> bool"
  s3Client_init :: bool
  s3_faults :: "nat \<Rightarrow> bool"
  clock :: "nat \<Rightarrow> int"
  uuidv4 :: "nat \<Rightarrow> string"
  toISOString :: "int \<Rightarrow> string"
  getTime :: "jv \<Rightarrow> int option"
  structActivityData :: "jv \<Rightarrow> exn + (string \<times> jv) list"
  structStaffData :: "jv \<Rightarrow> (string \<times> jv) list \<Rightarrow> exn option \<times> (string \<times> jv) list"
  extractBase64Image :: "string \<Rightarrow> exn + (string \<times> string) option"
  toAvif :: "string \<Rightarrow> bool"

text \<open>
  Two log lines are kept as events: \<open>Processing activity ID: ...\<close>, the first statement of
  \<open>processAndCacheActivity\<close>, and \<open>Staff data needs update. Fetching...\<close>.
\<close>

datatype event = Processing string | StaffFetching

text \<open>
  The state of the services: the token store, and on top of it the Redis store (each key
  with the value its text parses to), the keys of the S3 bucket, the counters of the
  scripts, the normalizer's staff map and the events logged.
\<close>

record sys = world +
  redis :: "(string \<times> jv) list"
  redis_ops :: nat
  s3_objects :: "string list"
  s3_ops :: nat
  ticks :: nat
  uuid_n :: nat
  staffs :: "(string \<times> jv) list"
  events :: "event list"

definition redis_op :: "env \<Rightarrow> sys \<Rightarrow> bool \<times> sys" where
  "redis_op E s = (redis_faults E (redis_ops s), s\<lparr>redis_ops := redis_ops s + 1\<rparr>)"

definition s3_op :: "env \<Rightarrow> sys \<Rightarrow> bool \<times> sys" where
  "s3_op E s = (s3_faults E (s3_ops s), s\<lparr>s3_ops := s3_ops s + 1\<rparr>)"

definition Date_now :: "env \<Rightarrow> sys \<Rightarrow> int \<times> sys" where
  "Date_now E s = (clock E (ticks s), s\<lparr>ticks := ticks s + 1\<rparr>)"

text \<open>\<open>new Date().toISOString()\<close>\<close>

definition new_Date_toISOString :: "env \<Rightarrow> sys \<Rightarrow> string \<times> sys" where
  "new_Date_toISOString E s = (toISOString E (clock E (ticks s)), s\<lparr>ticks := ticks s + 1\<rparr>)"

text \<open>\<open>String(i)\<close> for an integer.\<close>

definition digit_char :: "nat \<Rightarrow> char" where
  "digit_char d = ''0123456789'' ! d"

function digits :: "nat \<Rightarrow> string" where
  "digits n = (if n < 10 then [digit_char n] else digits (n div 10) @ [digit_char (n mod 10)])"
  by pat_completeness auto
termination
  by (relation "measure (\<lambda>n. n)") auto

declare digits.simps [simp del]

definition String_of :: "int \<Rightarrow> string" where
  "String_of i = (if i < 0 then CHR ''-'' # digits (nat (- i)) else digits (nat i))"

section \<open>The Redis service (services/redis-service.ts)\<close>

definition ACTIVITY_KEY_PREFIX :: string where
  "ACTIVITY_KEY_PREFIX = ''activity:''"

definition STAFF_KEY :: string where
  "STAFF_KEY = ''staffs:all''"

text \<open>
  Each function returns early without a client and catches what its command throws.
  \<open>JSON.stringify\<close> followed by \<open>JSON.parse\<close> gives the value back, so the store keeps
  values.
\<close>

definition getActivityData :: "env \<Rightarrow> string \<Rightarrow> sys \<Rightarrow> jv \<times> sys" where
  "getActivityData E activityId s =
     (if \<not> redisClient E then (JNull, s)
      else (case redis_op E s of
              (True, s1) \<Rightarrow> (JNull, s1)
            | (False, s1) \<Rightarrow>
                (case map_of (redis s1) (ACTIVITY_KEY_PREFIX @ activityId) of
                   None \<Rightarrow> (JNull, s1)
                 | Some v \<Rightarrow> (v, s1))))"

definition setActivityData :: "env \<Rightarrow> string \<Rightarrow> jv \<Rightarrow> sys \<Rightarrow> sys" where
  "setActivityData E activityId data s =
     (if \<not> redisClient E then s
      else (case redis_op E s of
              (True, s1) \<Rightarrow> s1
            | (False, s1) \<Rightarrow>
                s1\<lparr>redis := AList.update (ACTIVITY_KEY_PREFIX @ activityId) data (redis s1)\<rparr>))"

definition getStaffData :: "env \<Rightarrow> sys \<Rightarrow> jv \<times> sys" where
  "getStaffData E s =
     (if \<not> redisClient E then (JNull, s)
      else (case redis_op E s of
              (True, s1) \<Rightarrow> (JNull, s1)
            | (False, s1) \<Rightarrow>
                (case map_of (redis s1) STAFF_KEY of
                   None \<Rightarrow> (JNull, s1)
                 | Some v \<Rightarrow> (v, s1))))"

definition setStaffData :: "env \<Rightarrow> jv \<Rightarrow> sys \<Rightarrow> sys" where
  "setStaffData E data s =
     (if \<not> redisClient E then s
      else (case redis_op E s of
              (True, s1) \<Rightarrow> s1
            | (False, s1) \<Rightarrow> s1\<lparr>redis := AList.update STAFF_KEY data (redis s1)\<rparr>))"

text \<open>The \<open>SCAN\<close> loop for \<open>activity:*\<close>, taken as one command: all matching keys, or an error.\<close>

definition getAllActivityKeys :: "env \<Rightarrow> sys \<Rightarrow> string list \<times> sys" where
  "getAllActivityKeys E s =
     (if \<not> redisClient E then ([], s)
      else (case redis_op E s of
              (True, s1) \<Rightarrow> ([], s1)
            | (False, s1) \<Rightarrow>
                (filter (\<lambda>k. startsWith k ACTIVITY_KEY_PREFIX) (map fst (redis s1)), s1)))"

section \<open>The S3 service (services/s3-service.ts)\<close>

definition s3Client :: "env \<Rightarrow> config \<Rightarrow> bool" where
  "s3Client E cfg =
     (str_truthy (S3_ACCESS_KEY_ID cfg) \<and> str_truthy (S3_SECRET_ACCESS_KEY cfg)
      \<and> str_truthy (S3_BUCKET_NAME cfg) \<and> s3Client_init E)"

text \<open>\<open>(process.env.S3_PUBLIC_URL_PREFIX || 'files').replace(/\/$/, '')\<close>\<close>

definition PUBLIC_URL_FILE_PREFIX :: "config \<Rightarrow> string" where
  "PUBLIC_URL_FILE_PREFIX cfg =
     strip_trailing_slash
       (if str_truthy (S3_PUBLIC_URL_PREFIX cfg) then env_str (S3_PUBLIC_URL_PREFIX cfg)
        else ''files'')"

definition constructS3Url :: "config \<Rightarrow> string \<Rightarrow> string" where
  "constructS3Url cfg objectKey =
     (if \<not> str_truthy (S3_ENDPOINT cfg) \<or> \<not> str_truthy (S3_BUCKET_NAME cfg) then []
      else (let s3Base = strip_trailing_slash (env_str (S3_ENDPOINT cfg));
                bucket = strip_trailing_slash (strip_leading_slash (env_str (S3_BUCKET_NAME cfg)));
                key = strip_leading_slash objectKey
            in s3Base @ ''/'' @ bucket @ ''/'' @ key))"

definition uploadImageFromBase64 ::
  "env \<Rightarrow> config \<Rightarrow> string \<Rightarrow> string \<Rightarrow> string \<Rightarrow> sys \<Rightarrow> string option \<times> sys" where
  "uploadImageFromBase64 E cfg base64Data originalFormat activityId s =
     (if \<not> s3Client E cfg then (None, s)
      else if base64Data = [] \<or> originalFormat = [] \<or> activityId = [] then (None, s)
      else if \<not> toAvif E base64Data then (None, s)
      else (let objectKey = PUBLIC_URL_FILE_PREFIX cfg @ ''/activity-'' @ activityId @ ''-''
                              @ uuidv4 E (uuid_n s) @ ''.avif'';
                s1 = s\<lparr>uuid_n := uuid_n s + 1\<rparr>
            in case s3_op E s1 of
                 (True, s2) \<Rightarrow> (None, s2)
               | (False, s2) \<Rightarrow>
                   (Some (constructS3Url cfg objectKey),
                    s2\<lparr>s3_objects := List.insert objectKey (s3_objects s2)\<rparr>)))"

text \<open>
  The paged listing, taken as one command: an error gives the empty list, and otherwise
  every key under the prefix that does not end in a slash is listed.
\<close>

definition listS3Objects :: "env \<Rightarrow> config \<Rightarrow> string \<Rightarrow> sys \<Rightarrow> string list \<times> sys" where
  "listS3Objects E cfg prefix s =
     (if \<not> s3Client E cfg then ([], s)
      else (case s3_op E s of
              (True, s1) \<Rightarrow> ([], s1)
            | (False, s1) \<Rightarrow>
                (filter (\<lambda>key. startsWith key prefix \<and> key \<noteq> [] \<and> \<not> endsWith key ''/'')
                   (s3_objects s1), s1)))"

text \<open>The deletions of \<open>deleteS3Objects\<close>, one object after the other, counting the failures.\<close>

fun delete_each :: "env \<Rightarrow> string list \<Rightarrow> nat \<Rightarrow> sys \<Rightarrow> nat \<times> sys" where
  "delete_each E [] errorCount s = (errorCount, s)"
| "delete_each E (key # keys) errorCount s =
     (case s3_op E s of
        (True, s1) \<Rightarrow> delete_each E keys (errorCount + 1) s1
      | (False, s1) \<Rightarrow>
          delete_each E keys errorCount (s1\<lparr>s3_objects := removeAll key (s3_objects s1)\<rparr>))"

definition deleteS3Objects :: "env \<Rightarrow> config \<Rightarrow> string list \<Rightarrow> sys \<Rightarrow> bool \<times> sys" where
  "deleteS3Objects E cfg objectKeysArray s =
     (if \<not> s3Client E cfg then (False, s)
      else if objectKeysArray = [] then (True, s)
      else (case delete_each E objectKeysArray 0 s of
              (errorCount, s1) \<Rightarrow> (errorCount = 0, s1)))"

section \<open>The cache manager (services/cache-manager.ts)\<close>

text \<open>\<open>(process.env.S3_PUBLIC_URL_PREFIX || 'files').replace(/\/$/, '')\<close>, as the cache manager
  reads it.\<close>

definition S3_IMAGE_PREFIX :: "config \<Rightarrow> string" where
  "S3_IMAGE_PREFIX cfg = PUBLIC_URL_FILE_PREFIX cfg"

text \<open>
  The offloading of an embedded photo, which \<open>processAndCacheActivity\<close> and
  \<open>fetchProcessAndStoreActivity\<close> both carry out on the normalized record: a photo that is a
  string starting with \<open>data:image\<close> is uploaded, and replaced by the URL when there is one.
\<close>

definition offload_photo ::
  "env \<Rightarrow> config \<Rightarrow> string \<Rightarrow> (string \<times> jv) list \<Rightarrow> sys
     \<Rightarrow> (exn + (string \<times> jv) list) \<times> sys" where
  "offload_photo E cfg activityId structuredActivity s =
     (case map_of structuredActivity ''photo'' of
        Some (JStr photo) \<Rightarrow>
          if photo \<noteq> [] \<and> startsWith photo ''data:image'' then
            (case extractBase64Image E photo of
               Inl e \<Rightarrow> (Inl e, s)
             | Inr None \<Rightarrow> (Inr structuredActivity, s)
             | Inr (Some (base64Content, format)) \<Rightarrow>
                 (case uploadImageFromBase64 E cfg base64Content format activityId s of
                    (Some s3Url, s1) \<Rightarrow>
                      if s3Url \<noteq> []
                      then (Inr (AList.update ''photo'' (JStr s3Url) structuredActivity), s1)
                      else (Inr structuredActivity, s1)
                  | (None, s1) \<Rightarrow> (Inr structuredActivity, s1)))
          else (Inr structuredActivity, s)
      | _ \<Rightarrow> (Inr structuredActivity, s))"

text \<open>The \<open>try\<close> block of \<open>processAndCacheActivity\<close>.\<close>

definition processAndCacheActivity_try ::
  "env \<Rightarrow> config \<Rightarrow> string \<Rightarrow> sys \<Rightarrow> (exn + jv) \<times> sys" where
  "processAndCacheActivity_try E cfg activityId s =
     (if \<not> str_truthy (API_USERNAME cfg) \<or> \<not> str_truthy (API_PASSWORD cfg) then (Inl JsError, s)
      else
        (case fetchActivityData E activityId (env_str (API_USERNAME cfg))
                (env_str (API_PASSWORD cfg)) False s of
           (Inl e, s1) \<Rightarrow> (Inl e, s1)
         | (Inr activityJson, s1) \<Rightarrow>
             (case (if \<not> truthy activityJson then
                      (case new_Date_toISOString E s1 of
                         (t, s2) \<Rightarrow>
                           (Inr [(''lastCheck'', JStr t), (''source'', JStr ''api-fetch-empty'')],
                            s2))
                    else
                      (case structActivityData E activityJson of
                         Inl e \<Rightarrow> (Inl e, s1)
                       | Inr structuredActivity \<Rightarrow>
                           offload_photo E cfg activityId structuredActivity s1)) of
                (Inl e, s2) \<Rightarrow> (Inl e, s2)
              | (Inr structuredActivity, s2) \<Rightarrow>
                  (case new_Date_toISOString E s2 of
                     (t, s3) \<Rightarrow>
                       (let stored = JObj (AList.update ''lastCheck'' (JStr t) structuredActivity)
                        in (Inr stored, setActivityData E activityId stored s3))))))"

definition processAndCacheActivity :: "env \<Rightarrow> config \<Rightarrow> string \<Rightarrow> sys \<Rightarrow> jv \<times> sys" where
  "processAndCacheActivity E cfg activityId s =
     (case processAndCacheActivity_try E cfg activityId
             (s\<lparr>events := events s @ [Processing activityId]\<rparr>) of
        (Inr structuredActivity, s1) \<Rightarrow> (structuredActivity, s1)
      | (Inl e, s1) \<Rightarrow>
          (case new_Date_toISOString E s1 of
             (t, s2) \<Rightarrow>
               (let errorData =
                      JObj [(''lastCheck'', JStr t),
                            (''error'', JStr ''Failed to fetch or process'')]
                in (errorData, setActivityData E activityId errorData s2))))"

text \<open>
  \<open>initializeClubCache\<close> hands one job per identifier to the limiter, which keeps up to
  \<open>CONCURRENT_API_CALLS\<close> of them in flight, interleaved at their \<open>await\<close>s. Here the jobs
  run one after the other, in the order of their submission: \<open>initializeClubCache\<close> below
  is that one schedule, the only one when \<open>CONCURRENT_API_CALLS\<close> is 1. With more jobs in
  flight the requests to the portal, the token store and the counters depend on the
  interleaving, and nothing is stated of them through \<open>initializeClubCache\<close>. A job reads
  and writes the cache entry of its own identifier only; what is stated of the entries is
  stated of \<open>initializeClubCache_job\<close> in any state as well, and of the jobs run in any
  order.
\<close>

definition initializeClubCache_job :: "env \<Rightarrow> config \<Rightarrow> string \<Rightarrow> sys \<Rightarrow> sys" where
  "initializeClubCache_job E cfg activityId s =
     (case getActivityData E activityId s of
        (cachedData, s1) \<Rightarrow>
          if \<not> truthy cachedData
             \<or> keys_length cachedData = 0
             \<or> \<not> truthy_field cachedData ''lastCheck''
             \<or> truthy_field cachedData ''error''
          then snd (processAndCacheActivity E cfg activityId s1)
          else s1)"

function initializeClubCache_loop :: "env \<Rightarrow> config \<Rightarrow> int \<Rightarrow> sys \<Rightarrow> sys" where
  "initializeClubCache_loop E cfg i s =
     (if i \<le> MAX_ACTIVITY_ID_SCAN cfg
      then initializeClubCache_loop E cfg (i + 1) (initializeClubCache_job E cfg (String_of i) s)
      else s)"
  by pat_completeness auto
termination
  by (relation "measure (\<lambda>(E, cfg, i, s). nat (MAX_ACTIVITY_ID_SCAN cfg + 1 - i))") auto

declare initializeClubCache_loop.simps [simp del]

definition initializeClubCache :: "env \<Rightarrow> config \<Rightarrow> sys \<Rightarrow> sys" where
  "initializeClubCache E cfg s = initializeClubCache_loop E cfg (MIN_ACTIVITY_ID_SCAN cfg) s"

text \<open>\<open>new Date(v.k).getTime()\<close>, and the test \<open>(now - lastCheckTime) > updateIntervalMs\<close>, which
  is false on \<open>NaN\<close>.\<close>

definition getTime_field :: "env \<Rightarrow> jv \<Rightarrow> string \<Rightarrow> int option" where
  "getTime_field E v k = (case field v k of None \<Rightarrow> None | Some x \<Rightarrow> getTime E x)"

definition older_than :: "int \<Rightarrow> int option \<Rightarrow> int \<Rightarrow> bool" where
  "older_than now lastCheckTime updateIntervalMs =
     (case lastCheckTime of None \<Rightarrow> False | Some t \<Rightarrow> now - t > updateIntervalMs)"

subsection \<open>Orphan cleanup\<close>

text \<open>
  The test of the loop that collects the referenced URLs, and the URL it adds:
  \<open>activityData && typeof activityData.photo === 'string' && activityData.photo.startsWith('http')
  && S3_ENDPOINT && activityData.photo.startsWith(S3_ENDPOINT)\<close>.
\<close>

definition referenced_photo :: "config \<Rightarrow> jv \<Rightarrow> string option" where
  "referenced_photo cfg activityData =
     (case (if truthy activityData then field activityData ''photo'' else None) of
        Some (JStr photo) \<Rightarrow>
          if startsWith photo ''http''
             \<and> str_truthy (S3_ENDPOINT cfg)
             \<and> startsWith photo (env_str (S3_ENDPOINT cfg))
          then Some photo else None
      | _ \<Rightarrow> None)"

text \<open>The loop itself, over the keys of the scan.\<close>

fun referencedS3Urls :: "env \<Rightarrow> config \<Rightarrow> string list \<Rightarrow> string list \<Rightarrow> sys
    \<Rightarrow> string list \<times> sys" where
  "referencedS3Urls E cfg [] urls s = (urls, s)"
| "referencedS3Urls E cfg (redisKey # redisKeys) urls s =
     (let activityId = drop (length ACTIVITY_KEY_PREFIX) redisKey in
      case getActivityData E activityId s of
        (activityData, s1) \<Rightarrow>
          (case referenced_photo cfg activityData of
             Some photo \<Rightarrow> referencedS3Urls E cfg redisKeys (List.insert photo urls) s1
           | None \<Rightarrow> referencedS3Urls E cfg redisKeys urls s1))"

text \<open>The loop that selects the orphans among the listed keys.\<close>

definition orphanedObjectKeys :: "config \<Rightarrow> string list \<Rightarrow> string list \<Rightarrow> string list" where
  "orphanedObjectKeys cfg referenced s3ObjectKeys =
     filter (\<lambda>objectKey. let s3Url = constructS3Url cfg objectKey
                         in s3Url \<noteq> [] \<and> s3Url \<notin> set referenced)
       s3ObjectKeys"

text \<open>
  \<open>cleanupOrphanedS3Images\<close> up to the deletion: the keys it would submit, and
  \<open>cleanupOrphanedS3Images\<close> itself.
\<close>

definition s3ObjectListPrefix :: "config \<Rightarrow> string" where
  "s3ObjectListPrefix cfg =
     (if S3_IMAGE_PREFIX cfg \<noteq> [] then S3_IMAGE_PREFIX cfg @ ''/'' else [])"

definition cleanup_selection :: "env \<Rightarrow> config \<Rightarrow> sys \<Rightarrow> string list \<times> sys" where
  "cleanup_selection E cfg s =
     (case getAllActivityKeys E s of
        (allActivityRedisKeys, s1) \<Rightarrow>
          (case referencedS3Urls E cfg allActivityRedisKeys [] s1 of
             (referenced, s2) \<Rightarrow>
               (case listS3Objects E cfg (s3ObjectListPrefix cfg) s2 of
                  (s3ObjectKeys, s3) \<Rightarrow>
                    if s3ObjectKeys = [] then ([], s3)
                    else (orphanedObjectKeys cfg referenced s3ObjectKeys, s3))))"

definition cleanupOrphanedS3Images :: "env \<Rightarrow> config \<Rightarrow> sys \<Rightarrow> sys" where
  "cleanupOrphanedS3Images E cfg s =
     (case cleanup_selection E cfg s of
        (orphaned, s1) \<Rightarrow>
          if length orphaned > 0 then snd (deleteS3Objects E cfg orphaned s1) else s1)"


subsection \<open>Staleness sweep\<close>

definition updateStaleClubs_job ::
  "env \<Rightarrow> config \<Rightarrow> int \<Rightarrow> int \<Rightarrow> string \<Rightarrow> sys \<Rightarrow> sys" where
  "updateStaleClubs_job E cfg now updateIntervalMs activityId s =
     (case getActivityData E activityId s of
        (cachedData, s1) \<Rightarrow>
          if truthy cachedData \<and> truthy_field cachedData ''lastCheck'' then
            (let lastCheckTime = getTime_field E cachedData ''lastCheck'' in
             if older_than now lastCheckTime updateIntervalMs \<or> truthy_field cachedData ''error''
             then snd (processAndCacheActivity E cfg activityId s1)
             else s1)
          else if \<not> truthy cachedData \<or> keys_length cachedData = 0
          then snd (processAndCacheActivity E cfg activityId s1)
          else s1)"

text \<open>
  \<open>updateStaleClubs\<close> up to its call of \<open>cleanupOrphanedS3Images\<close>: the time it reads, the
  threshold, and the identifiers of the jobs it has handed to the limiter, one for every
  key of the scan and in that order. From there on the jobs and the cleanup run
  interleaved: the cleanup is called while the jobs are pending, and both are awaited only
  afterwards. No order among them is fixed here; what is stated of a sweep is stated of
  \<open>updateStaleClubs_jobs\<close>, of each \<open>updateStaleClubs_job\<close> and of the cleanup.
\<close>

definition updateStaleClubs_jobs ::
  "env \<Rightarrow> config \<Rightarrow> sys \<Rightarrow> (int \<times> int \<times> string list) \<times> sys" where
  "updateStaleClubs_jobs E cfg s =
     (case Date_now E s of
        (now, s1) \<Rightarrow>
          (let updateIntervalMs = CLUB_UPDATE_INTERVAL_MINS cfg * 60 * 1000 in
           case getAllActivityKeys E s1 of
             (activityKeys, s2) \<Rightarrow>
               ((now, updateIntervalMs,
                 map (\<lambda>key. drop (length ACTIVITY_KEY_PREFIX) key) activityKeys), s2)))"

subsection \<open>Staff aggregate\<close>

text \<open>The value of \<open>needsUpdate\<close> when the \<open>if\<close> that guards the fetch reads it.\<close>

definition needsUpdate :: "env \<Rightarrow> config \<Rightarrow> bool \<Rightarrow> jv \<Rightarrow> int \<Rightarrow> bool" where
  "needsUpdate E cfg forceUpdate cachedStaffData now =
     (if \<not> truthy cachedStaffData \<or> \<not> truthy_field cachedStaffData ''lastCheck'' then True
      else if older_than now (getTime_field E cachedStaffData ''lastCheck'')
                (STAFF_UPDATE_INTERVAL_MINS cfg * 60 * 1000)
      then True
      else forceUpdate)"

text \<open>
  \<open>initializeOrUpdateStaffCache\<close>. Everything is inside one \<open>try\<close>, whose \<open>catch\<close> logs: where
  something throws, the state is left as it is at that point.
\<close>

definition initializeOrUpdateStaffCache :: "env \<Rightarrow> config \<Rightarrow> bool \<Rightarrow> sys \<Rightarrow> sys" where
  "initializeOrUpdateStaffCache E cfg forceUpdate s =
     (case getStaffData E s of
        (cachedStaffData, s1) \<Rightarrow>
          (case Date_now E s1 of
             (now, s2) \<Rightarrow>
               if needsUpdate E cfg forceUpdate cachedStaffData now
                  \<and> str_truthy (API_USERNAME cfg) \<and> str_truthy (API_PASSWORD cfg)
                  \<and> str_truthy (FIXED_STAFF_ACTIVITY_ID cfg)
               then
                 (case fetchActivityData E (env_str (FIXED_STAFF_ACTIVITY_ID cfg))
                         (env_str (API_USERNAME cfg)) (env_str (API_PASSWORD cfg)) False
                         (s2\<lparr>events := events s2 @ [StaffFetching]\<rparr>) of
                    (Inl e, s3) \<Rightarrow> s3
                  | (Inr activityJson, s3) \<Rightarrow>
                      if truthy activityJson then
                        (case structStaffData E activityJson (staffs s3) of
                           (Some e, staffMap) \<Rightarrow> s3\<lparr>staffs := staffMap\<rparr>
                         | (None, staffMap) \<Rightarrow>
                             (case new_Date_toISOString E (s3\<lparr>staffs := staffMap\<rparr>) of
                                (t, s4) \<Rightarrow>
                                  setStaffData E
                                    (JObj (AList.update ''lastCheck'' (JStr t) staffMap)) s4))
                      else if truthy cachedStaffData \<and> truthy_field cachedStaffData ''lastCheck''
                      then
                        (case cachedStaffData of
                           JObj kvs \<Rightarrow>
                             (case new_Date_toISOString E s3 of
                                (t, s4) \<Rightarrow>
                                  setStaffData E
                                    (JObj (AList.update ''lastCheck'' (JStr t) kvs)) s4)
                         | _ \<Rightarrow> s3)
                      else s3)
               else s2))"

section \<open>The single-activity route's helper (index.ts)\<close>

definition fetchProcessAndStoreActivity ::
  "env \<Rightarrow> config \<Rightarrow> string \<Rightarrow> sys \<Rightarrow> (exn + (jv \<times> nat)) \<times> sys" where
  "fetchProcessAndStoreActivity E cfg activityId s =
     (case fetchActivityData E activityId (env_str (API_USERNAME cfg))
             (env_str (API_PASSWORD cfg)) False s of
        (Inl e, s1) \<Rightarrow> (Inl e, s1)
      | (Inr activityJson, s1) \<Rightarrow>
          if \<not> truthy activityJson then
            (case new_Date_toISOString E s1 of
               (t, s2) \<Rightarrow>
                 (let emptyData =
                        JObj [(''lastCheck'', JStr t), (''source'', JStr ''api-fetch-empty'')]
                  in (Inr (emptyData, 404), setActivityData E activityId emptyData s2)))
          else
            (case structActivityData E activityJson of
               Inl e \<Rightarrow> (Inl e, s1)
             | Inr structuredActivity \<Rightarrow>
                 (case offload_photo E cfg activityId structuredActivity s1 of
                    (Inl e, s2) \<Rightarrow> (Inl e, s2)
                  | (Inr structuredActivity, s2) \<Rightarrow>
                      (case new_Date_toISOString E s2 of
                         (t, s3) \<Rightarrow>
                           (let stored =
                                  JObj (AList.update ''lastCheck'' (JStr t) structuredActivity)
                            in (Inr (stored, 200),
                                setActivityData E activityId stored s3))))))"

section \<open>Notions used in the statements\<close>

subsection \<open>Fetch client\<close>

text \<open>
  The error of an attempt that the fetch client retries: the attempt throws, and what it
  throws is not an HTTP status in 400..499.
\<close>

definition retryable_failure :: "http_result \<Rightarrow> exn option" where
  "retryable_failure r =
     (case attempt_result r of
        Thrown e \<Rightarrow> (case is_auth_status e of None \<Rightarrow> Some e | Some st \<Rightarrow> None)
      | _ \<Rightarrow> None)"

subsection \<open>Login handshake\<close>

text \<open>
  The candidates among the \<open>Set-Cookie\<close> headers, the \<open>name=value\<close> fragment of a header
  (what stands before its first semicolon, trimmed), the value part of that fragment, and
  the selection the specification describes: the fragment of the last candidate whose
  value part is not empty.
\<close>

definition aspx_candidates :: "string list \<Rightarrow> string list" where
  "aspx_candidates setCookieHeader =
     filter (\<lambda>cookie. startsWith (trim cookie) ''.ASPXFORMSAUTH='') setCookieHeader"

definition name_value :: "string \<Rightarrow> string" where
  "name_value cookie = trim (hd (split_on CHR '';'' cookie))"

definition value_part :: "string \<Rightarrow> string" where
  "value_part cookie = drop (length ''.ASPXFORMSAUTH='') (name_value cookie)"

definition last_nonempty_candidate :: "string list \<Rightarrow> string option" where
  "last_nonempty_candidate setCookieHeader =
     (case filter (\<lambda>cookie. value_part cookie \<noteq> []) (aspx_candidates setCookieHeader) of
        [] \<Rightarrow> None
      | cs \<Rightarrow> Some (name_value (last cs)))"

subsection \<open>Cache entries\<close>

text \<open>A record that carries a \<open>lastCheck\<close> made by \<open>toISOString\<close> from a time.\<close>

definition stamped :: "env \<Rightarrow> jv \<Rightarrow> bool" where
  "stamped E data =
     (\<exists>kvs t. data = JObj kvs \<and> map_of kvs ''lastCheck'' = Some (JStr (toISOString E t)))"

text \<open>Redis answers every command: there is a client, and no command fails.\<close>

definition redis_reliable :: "env \<Rightarrow> bool" where
  "redis_reliable E = (redisClient E \<and> (\<forall>n. \<not> redis_faults E n))"

text \<open>The cache entry of an identifier, as a read that succeeds returns it.\<close>

definition entry :: "sys \<Rightarrow> string \<Rightarrow> jv" where
  "entry s activityId =
     (case map_of (redis s) (ACTIVITY_KEY_PREFIX @ activityId) of None \<Rightarrow> JNull | Some v \<Rightarrow> v)"

text \<open>
  Bulk population: the entry is missing, empty, lacks \<open>lastCheck\<close>, or is marked errored.
\<close>

definition needs_population :: "jv \<Rightarrow> bool" where
  "needs_population cachedData =
     (\<not> truthy cachedData \<or> keys_length cachedData = 0
      \<or> \<not> truthy_field cachedData ''lastCheck'' \<or> truthy_field cachedData ''error'')"




subsection \<open>Orphan cleanup\<close>







section \<open>Relations between states, for the frame lemmas\<close>

text \<open>Only the counters and the sleep log differ: the token store and the rest are kept.\<close>

definition net_only :: "'a world_scheme \<Rightarrow> 'a world_scheme \<Rightarrow> bool" where
  "net_only w w' =
     (inMemoryCookie w' = inMemoryCookie w \<and> cookieFile w' = cookieFile w
      \<and> world.more w' = world.more w)"

definition same_cache :: "sys \<Rightarrow> sys \<Rightarrow> bool" where
  "same_cache s s' = (redis s' = redis s \<and> events s' = events s)"

definition same_s3 :: "sys \<Rightarrow> sys \<Rightarrow> bool" where
  "same_s3 s s' = (s3_objects s' = s3_objects s \<and> s3_ops s' = s3_ops s)"

text \<open>What one call of \<open>setActivityData\<close> does to the store: nothing, or one update.\<close>

definition wrote :: "string \<Rightarrow> jv \<Rightarrow> sys \<Rightarrow> sys \<Rightarrow> bool" where
  "wrote activityId data s s' =
     (events s' = events s
      \<and> (redis s' = redis s
          \<or> redis s' = AList.update (ACTIVITY_KEY_PREFIX @ activityId) data (redis s)))"

section \<open>Example runs\<close>

text \<open>A portal that answers from a list, and does not answer once the list is used up.\<close>

definition script :: "http_result list \<Rightarrow> nat \<Rightarrow> http_result" where
  "script rs n = (if n < length rs then rs ! n else NoResponse)"

text \<open>
  A portal that accepts the probe, rejects the fetch with 401, lets the login through
  (re-issuing the forms cookie empty before its real value) and rejects the fetch again.
\<close>

definition rejecting_portal :: portal where
  "rejecting_portal =
     \<lparr>upstream = script
        [Response 200 [] BodyNoD,
         Response 401 [] BodyBad,
         Response 200 [''ASP.NET_SessionId=abc; path=/''] BodyBad,
         Response 302 [''.ASPXFORMSAUTH=; path=/'', ''.ASPXFORMSAUTH=tok; path=/''] BodyBad,
         Response 401 [] BodyBad],
      templateFile = True,
      fs_faults = (\<lambda>n. False)\<rparr>"

text \<open>The same portal, but the login page does not answer any more.\<close>

definition login_down_portal :: portal where
  "login_down_portal =
     \<lparr>upstream = script [Response 200 [] BodyNoD, Response 401 [] BodyBad],
      templateFile = True,
      fs_faults = (\<lambda>n. False)\<rparr>"

text \<open>A portal whose form submission only re-issues the forms cookie empty.\<close>

definition empty_auth_portal :: portal where
  "empty_auth_portal =
     \<lparr>upstream = script
        [Response 200 [''ASP.NET_SessionId=abc; path=/''] BodyBad,
         Response 302 [''.ASPXFORMSAUTH=; path=/''] BodyBad],
      templateFile = True,
      fs_faults = (\<lambda>n. False)\<rparr>"

text \<open>A portal that fails three times without a 4xx, and one that fails once and then rejects.\<close>

definition flaky_portal :: portal where
  "flaky_portal =
     \<lparr>upstream = script [Response 503 [] BodyBad, NoResponse, Response 500 [] BodyBad],
      templateFile = True,
      fs_faults = (\<lambda>n. False)\<rparr>"

definition flaky_rejecting_portal :: portal where
  "flaky_rejecting_portal =
     \<lparr>upstream = script [Response 503 [] BodyBad, Response 403 [] BodyBad],
      templateFile = True,
      fs_faults = (\<lambda>n. False)\<rparr>"

text \<open>
  A portal that accepts the probe and then fails three times without a 4xx, and one that
  never answers.
\<close>

definition probed_portal :: portal where
  "probed_portal =
     \<lparr>upstream = script
        [Response 200 [] BodyNoD, Response 503 [] BodyBad, NoResponse, Response 500 [] BodyBad],
      templateFile = True,
      fs_faults = (\<lambda>n. False)\<rparr>"

definition silent_portal :: portal where
  "silent_portal =
     \<lparr>upstream = (\<lambda>n. NoResponse), templateFile = True, fs_faults = (\<lambda>n. False)\<rparr>"

text \<open>An empty token store, and one that holds a token, in memory and on disk.\<close>

definition empty_world :: world where
  "empty_world =
     \<lparr>inMemoryCookie = None, cookieFile = None, calls = 0, fs_ops = 0, sleeps = []\<rparr>"

definition cached_world :: world where
  "cached_world =
     \<lparr>inMemoryCookie = Some ''old'', cookieFile = Some ''old'', calls = 0, fs_ops = 0,
      sleeps = []\<rparr>"

text \<open>
  An outside world for the cache manager: the portal never answers, Redis and S3 work, the
  clock stands at 7200000 ms (120 minutes), and the date functions know the two time
  stamps of the example store.
\<close>

definition example_env :: env where
  "example_env =
     \<lparr>upstream = (\<lambda>n. NoResponse),
      templateFile = True,
      fs_faults = (\<lambda>n. False),
      redisClient = True,
      redis_faults = (\<lambda>n. False),
      s3Client_init = True,
      s3_faults = (\<lambda>n. False),
      clock = (\<lambda>n. 7200000),
      uuidv4 = (\<lambda>n. ''uuid''),
      toISOString = (\<lambda>t. CHR ''t'' # String_of t),
      getTime = (\<lambda>v. if v = JStr ''t0'' then Some 0
                      else if v = JStr ''t6600000'' then Some 6600000 else None),
      structActivityData = (\<lambda>v. Inl JsError),
      structStaffData = (\<lambda>v m. (None, m)),
      extractBase64Image = (\<lambda>p. Inr None),
      toAvif = (\<lambda>b. True)\<rparr>"

definition example_cfg :: config where
  "example_cfg =
     \<lparr>API_USERNAME = Some ''user'', API_PASSWORD = Some ''pw'',
      MIN_ACTIVITY_ID_SCAN = 1, MAX_ACTIVITY_ID_SCAN = 4,
      CLUB_UPDATE_INTERVAL_MINS = 60, STAFF_UPDATE_INTERVAL_MINS = 60,
      FIXED_STAFF_ACTIVITY_ID = Some ''9'',
      S3_ENDPOINT = Some ''https://s3.example.com'', S3_BUCKET_NAME = Some ''cca'',
      S3_ACCESS_KEY_ID = Some ''key'', S3_SECRET_ACCESS_KEY = Some ''secret'',
      S3_PUBLIC_URL_PREFIX = None\<rparr>"

text \<open>
  A store with a fresh record (checked 10 minutes ago), a stale one (120 minutes ago), a
  record with an error marker and no \<open>lastCheck\<close>, a fresh record with an error marker and a
  photo, and the staff record.
\<close>

definition example_store :: "(string \<times> jv) list" where
  "example_store =
     [(''activity:1'', JObj [(''name'', JStr ''Chess''),
                             (''photo'', JStr ''https://s3.example.com/cca/files/a.avif''),
                             (''lastCheck'', JStr ''t6600000'')]),
      (''activity:2'', JObj [(''name'', JStr ''Go''), (''lastCheck'', JStr ''t0'')]),
      (''activity:3'', JObj [(''error'', JStr ''Failed to fetch or process'')]),
      (''activity:4'', JObj [(''lastCheck'', JStr ''t6600000''),
                             (''error'', JStr ''Failed to fetch or process''),
                             (''photo'', JStr ''https://s3.example.com/cca/files/b.avif'')]),
      (''staffs:all'', JObj [(''S1'', JStr ''Ms A''), (''lastCheck'', JStr ''t0'')])]"

definition example_sys :: sys where
  "example_sys =
     \<lparr>inMemoryCookie = None, cookieFile = None, calls = 0, fs_ops = 0, sleeps = [],
      redis = example_store, redis_ops = 0,
      s3_objects = [''files/a.avif'', ''files/b.avif'', ''files/c.avif''], s3_ops = 0,
      ticks = 0, uuid_n = 0, staffs = [], events = []\<rparr>"

text \<open>
  A portal that lets the login through and then answers every request with the details
  of an activity, and an outside world around it: the normalizer finds an embedded PNG,
  which is offloaded; the clock advances by \<open>step\<close> ms with every reading; Redis fails on
  the commands that \<open>faults\<close> picks by their number, and S3 never fails.
\<close>

definition serving_portal :: "nat \<Rightarrow> http_result" where
  "serving_portal n =
     (if n = 0 then Response 200 [''ASP.NET_SessionId=abc; path=/''] BodyBad
      else if n = 1 then Response 302 [''.ASPXFORMSAUTH=tok; path=/''] BodyBad
      else Response 200 [] (BodyD (InnerJson (JObj [(''name'', JStr ''Chess'')]))))"

definition serving_env :: "int \<Rightarrow> (nat \<Rightarrow> bool) \<Rightarrow> env" where
  "serving_env step faults =
     \<lparr>upstream = serving_portal,
      templateFile = True,
      fs_faults = (\<lambda>n. False),
      redisClient = True,
      redis_faults = faults,
      s3Client_init = True,
      s3_faults = (\<lambda>n. False),
      clock = (\<lambda>n. step * int n),
      uuidv4 = (\<lambda>n. if n = 0 then ''a'' else ''b''),
      toISOString = (\<lambda>t. CHR ''t'' # String_of t),
      getTime = (\<lambda>v. if v = JStr ''t0'' then Some 0 else None),
      structActivityData =
        (\<lambda>v. Inr [(''name'', JStr ''Chess''), (''photo'', JStr ''data:image/png;base64,AAAA'')]),
      structStaffData = (\<lambda>v m. (None, m)),
      extractBase64Image = (\<lambda>p. Inr (Some (''AAAA'', ''png''))),
      toAvif = (\<lambda>b. True)\<rparr>"

text \<open>
  The services at their start, with nothing cached and an empty bucket, and the state
  that the first \<open>processAndCacheActivity\<close> for activity 1 leaves when the portal serves.
\<close>

definition fresh_sys :: sys where
  "fresh_sys =
     \<lparr>inMemoryCookie = None, cookieFile = None, calls = 0, fs_ops = 0, sleeps = [],
      redis = [], redis_ops = 0, s3_objects = [], s3_ops = 0,
      ticks = 0, uuid_n = 0, staffs = [], events = []\<rparr>"

definition stored_sys :: sys where
  "stored_sys =
     \<lparr>inMemoryCookie = Some ''ASP.NET_SessionId=abc; .ASPXFORMSAUTH=tok'',
      cookieFile = Some ''ASP.NET_SessionId=abc; .ASPXFORMSAUTH=tok'',
      calls = 3, fs_ops = 3, sleeps = [],
      redis = [(''activity:1'',
                JObj [(''name'', JStr ''Chess''),
                      (''photo'', JStr ''https://s3.example.com/cca/files/activity-1-a.avif''),
                      (''lastCheck'', JStr ''t0'')])],
      redis_ops = 1, s3_objects = [''files/activity-1-a.avif''], s3_ops = 1,
      ticks = 1, uuid_n = 1, staffs = [], events = [Processing ''1'']\<rparr>"

text \<open>
  States that follow \<open>stored_sys\<close>: after a second \<open>processAndCacheActivity\<close> for activity 1
  with the portal serving (a second image is uploaded, and the record refers to it); after
  one with the portal silent (the record is the confirmed-empty one); and after a sweep in
  which the job for activity 1 ran between the cleanup's reading of the records and its
  listing of the bucket.
\<close>

definition refreshed_sys :: sys where
  "refreshed_sys =
     stored_sys
       \<lparr>calls := 5,
        redis := [(''activity:1'',
                   JObj [(''name'', JStr ''Chess''),
                         (''photo'', JStr ''https://s3.example.com/cca/files/activity-1-b.avif''),
                         (''lastCheck'', JStr ''t1000'')])],
        redis_ops := 2,
        s3_objects := [''files/activity-1-b.avif'', ''files/activity-1-a.avif''], s3_ops := 2,
        ticks := 2, uuid_n := 2, events := [Processing ''1'', Processing ''1'']\<rparr>"

definition emptied_sys :: sys where
  "emptied_sys =
     stored_sys
       \<lparr>inMemoryCookie := None, cookieFile := None, calls := 7, fs_ops := 4,
        redis := [(''activity:1'',
                   JObj [(''lastCheck'', JStr ''t7200000''),
                         (''source'', JStr ''api-fetch-empty'')])],
        redis_ops := 2, ticks := 3, events := [Processing ''1'', Processing ''1'']\<rparr>"

definition swept_sys :: sys where
  "swept_sys =
     stored_sys
       \<lparr>calls := 5,
        redis := [(''activity:1'',
                   JObj [(''name'', JStr ''Chess''),
                         (''photo'', JStr ''https://s3.example.com/cca/files/activity-1-b.avif''),
                         (''lastCheck'', JStr ''t8000000'')])],
        redis_ops := 6,
        s3_objects := [''files/activity-1-a.avif''], s3_ops := 4,
        ticks := 3, uuid_n := 2, events := [Processing ''1'', Processing ''1'']\<rparr>"

text \<open>
  The configuration without an S3 endpoint, and with one whose scheme is written in upper
  case; and the states that the first \<open>processAndCacheActivity\<close> for activity 1 leaves
  under each: the image is uploaded, and the record keeps the embedded photo under the
  first and gets the URL under the second.
\<close>

definition no_endpoint_cfg :: config where
  "no_endpoint_cfg = example_cfg\<lparr>S3_ENDPOINT := None\<rparr>"

definition uppercase_cfg :: config where
  "uppercase_cfg = example_cfg\<lparr>S3_ENDPOINT := Some ''HTTPS://s3.example.com''\<rparr>"

definition embedded_sys :: sys where
  "embedded_sys =
     stored_sys
       \<lparr>redis := [(''activity:1'',
                   JObj [(''name'', JStr ''Chess''),
                         (''photo'', JStr ''data:image/png;base64,AAAA''),
                         (''lastCheck'', JStr ''t0'')])]\<rparr>"

definition uppercase_sys :: sys where
  "uppercase_sys =
     stored_sys
       \<lparr>redis := [(''activity:1'',
                   JObj [(''name'', JStr ''Chess''),
                         (''photo'', JStr ''HTTPS://s3.example.com/cca/files/activity-1-a.avif''),
                         (''lastCheck'', JStr ''t0'')])]\<rparr>"

text \<open>The configuration of the examples with the scan range reduced to activity 1.\<close>

definition one_cfg :: config where
  "one_cfg = example_cfg\<lparr>MAX_ACTIVITY_ID_SCAN := 1\<rparr>"

section \<open>Evaluation of the example runs\<close>

lemmas eval_defs =
  fetchActivityData_def fetch_with_cookie_def relogin_and_retry_def
  fetch_and_parse_def parse_details_def getActivityDetailsRaw_def
  getActivityDetailsRaw_loop.simps
  attempt_result_def is_auth_status_def loadCachedCookie_def clearCookieCache_def
  saveCookieToCache_def str_truthy_def
  testCookieValidity_def testCookieValidity_loop.simps
  getCompleteCookies_def getSessionId_def getMSAUTH_def axios_request_def
  status_2xx_def status_2xx_3xx_def
  formsAuthCookieValue_def trim_def is_ws_def startsWith_def endsWith_def fs_op_def Let_def
  script_def rejecting_portal_def login_down_portal_def empty_auth_portal_def
  flaky_portal_def flaky_rejecting_portal_def cached_world_def
  example_env_def example_cfg_def example_sys_def example_store_def
  redis_op_def s3_op_def Date_now_def new_Date_toISOString_def String_of_def digits.simps
  digit_char_def ACTIVITY_KEY_PREFIX_def STAFF_KEY_def
  getActivityData_def setActivityData_def getStaffData_def setStaffData_def
  getAllActivityKeys_def s3Client_def PUBLIC_URL_FILE_PREFIX_def constructS3Url_def
  uploadImageFromBase64_def listS3Objects_def deleteS3Objects_def S3_IMAGE_PREFIX_def
  s3ObjectListPrefix_def
  offload_photo_def processAndCacheActivity_try_def processAndCacheActivity_def
  initializeClubCache_job_def initializeClubCache_loop.simps initializeClubCache_def
  getTime_field_def older_than_def referenced_photo_def orphanedObjectKeys_def
  cleanup_selection_def cleanupOrphanedS3Images_def updateStaleClubs_job_def
  updateStaleClubs_jobs_def needsUpdate_def initializeOrUpdateStaffCache_def
  fetchProcessAndStoreActivity_def truthy_field_def env_str_def
  strip_trailing_slash_def strip_leading_slash_def
  probed_portal_def silent_portal_def empty_world_def
  serving_portal_def serving_env_def fresh_sys_def one_cfg_def
  no_endpoint_cfg_def uppercase_cfg_def

lemmas run_defs = eval_defs stored_sys_def refreshed_sys_def emptied_sys_def swept_sys_def
  embedded_sys_def uppercase_sys_def


section \<open>The fetch orchestrator returns, and never throws\<close>

lemma relogin_and_retry_returns:
  "\<exists>v w'. relogin_and_retry E activityId userName userPwd w = (Inr v, w')"
  by (simp add: relogin_and_retry_def split: prod.splits sum.splits)

lemma fetch_with_cookie_returns:
  "\<exists>v w'. fetch_with_cookie E activityId userName userPwd currentCookie w = (Inr v, w')"
  by (auto simp: fetch_with_cookie_def split: prod.splits sum.splits option.splits exn.splits
      intro: relogin_and_retry_returns)

lemma fetchActivityData_returns:
  "\<exists>v w'. fetchActivityData E activityId userName userPwd forceLogin w = (Inr v, w')"
  by (auto simp: fetchActivityData_def Let_def split: prod.splits sum.splits option.splits
      intro: fetch_with_cookie_returns)

lemma getCompleteCookies_nonempty:
  "getCompleteCookies E u p w = (Inr c, w') \<Longrightarrow> c \<noteq> []"
  by (auto simp: getCompleteCookies_def split: prod.splits sum.splits option.splits)

lemma loadCachedCookie_Some_nonempty:
  "loadCachedCookie E w = (Some c, w1) \<Longrightarrow> c \<noteq> []"
  by (auto simp: loadCachedCookie_def str_truthy_def fs_op_def
      split: option.splits if_splits bool.splits)

lemma fetchActivityData_token:
  assumes "(forceLogin \<and> getCompleteCookies E userName userPwd w = (Inr c, wl)
              \<and> wt = saveCookieToCache E c wl)
         \<or> (\<not> forceLogin \<and> loadCachedCookie E w = (Some c, w1)
              \<and> testCookieValidity E c w1 = (True, wt))
         \<or> (\<not> forceLogin \<and> loadCachedCookie E w = (None, w1)
              \<and> getCompleteCookies E userName userPwd w1 = (Inr c, wl)
              \<and> wt = saveCookieToCache E c wl)
         \<or> (\<not> forceLogin \<and> loadCachedCookie E w = (Some c0, w1)
              \<and> testCookieValidity E c0 w1 = (False, w2)
              \<and> getCompleteCookies E userName userPwd (clearCookieCache E w2) = (Inr c, wl)
              \<and> wt = saveCookieToCache E c wl)"
  shows "c \<noteq> [] \<and> fetchActivityData E activityId userName userPwd forceLogin w
           = fetch_with_cookie E activityId userName userPwd (Some c) wt"
  using assms
  by (auto simp: fetchActivityData_def str_truthy_def
      dest: loadCachedCookie_Some_nonempty getCompleteCookies_nonempty)

text \<open>
  Claim C3. For every input \<open>fetchActivityData\<close> returns a value and never an exception
  (the model's functions are total, so the call also ends). It returns \<open>null\<close> when the
  login fails: the forced login, the login of a call that finds no cached token, and the
  login after a cached token that the probe found invalid. It returns \<open>null\<close> when the
  fetch ends in an error that is not an authentication rejection, the retries of the fetch
  client being used up, whichever token the call fetches with: that of a forced login, a
  cached one that probes valid, or that of the login after no cached token or an invalid
  one. And it returns \<open>null\<close> when the fetch is rejected and the re-login fails, or the
  fetch after the re-login throws, whatever it throws.
\<close>

theorem fetchActivityData_never_raises:
  "(\<exists>v w'. fetchActivityData E activityId userName userPwd forceLogin w = (Inr v, w'))
   \<and> (getCompleteCookies E userName userPwd w = (Inl e, w')
        \<longrightarrow> fetchActivityData E activityId userName userPwd True w = (Inr JNull, w'))
   \<and> (loadCachedCookie E w = (None, w1)
        \<and> getCompleteCookies E userName userPwd w1 = (Inl e, w')
        \<longrightarrow> fetchActivityData E activityId userName userPwd False w = (Inr JNull, w'))
   \<and> (loadCachedCookie E w = (Some c0, w1) \<and> testCookieValidity E c0 w1 = (False, w2)
        \<and> getCompleteCookies E userName userPwd (clearCookieCache E w2) = (Inl e, w')
        \<longrightarrow> fetchActivityData E activityId userName userPwd False w = (Inr JNull, w'))
   \<and> ((forceLogin \<and> getCompleteCookies E userName userPwd w = (Inr c, wl)
          \<and> wt = saveCookieToCache E c wl)
       \<or> (\<not> forceLogin \<and> loadCachedCookie E w = (Some c, w1)
          \<and> testCookieValidity E c w1 = (True, wt))
       \<or> (\<not> forceLogin \<and> loadCachedCookie E w = (None, w1)
          \<and> getCompleteCookies E userName userPwd w1 = (Inr c, wl)
          \<and> wt = saveCookieToCache E c wl)
       \<or> (\<not> forceLogin \<and> loadCachedCookie E w = (Some c0, w1)
          \<and> testCookieValidity E c0 w1 = (False, w2)
          \<and> getCompleteCookies E userName userPwd (clearCookieCache E w2) = (Inr c, wl)
          \<and> wt = saveCookieToCache E c wl)
      \<longrightarrow> (getActivityDetailsRaw E activityId c 3 wt = (Inl e, w')
             \<and> (\<forall>st. e \<noteq> AuthenticationError st)
            \<longrightarrow> fetchActivityData E activityId userName userPwd forceLogin w = (Inr JNull, w'))
          \<and> (getActivityDetailsRaw E activityId c 3 wt = (Inl (AuthenticationError st), wr)
             \<and> getCompleteCookies E userName userPwd (clearCookieCache E wr) = (Inl e, w')
            \<longrightarrow> fetchActivityData E activityId userName userPwd forceLogin w = (Inr JNull, w'))
          \<and> (getActivityDetailsRaw E activityId c 3 wt = (Inl (AuthenticationError st), wr)
             \<and> getCompleteCookies E userName userPwd (clearCookieCache E wr) = (Inr c', wl')
             \<and> getActivityDetailsRaw E activityId c' 3 (saveCookieToCache E c' wl') = (Inl e, w')
            \<longrightarrow> fetchActivityData E activityId userName userPwd forceLogin w = (Inr JNull, w')))"
proof -
  have c1: "\<exists>v w'. fetchActivityData E activityId userName userPwd forceLogin w = (Inr v, w')"
    by (rule fetchActivityData_returns)
  have c2: "getCompleteCookies E userName userPwd w = (Inl e, w')
        \<longrightarrow> fetchActivityData E activityId userName userPwd True w = (Inr JNull, w')"
    by (simp add: fetchActivityData_def str_truthy_def)
  have c3: "loadCachedCookie E w = (None, w1)
        \<and> getCompleteCookies E userName userPwd w1 = (Inl e, w')
        \<longrightarrow> fetchActivityData E activityId userName userPwd False w = (Inr JNull, w')"
    by (simp add: fetchActivityData_def str_truthy_def)
  have c4: "loadCachedCookie E w = (Some c0, w1) \<and> testCookieValidity E c0 w1 = (False, w2)
        \<and> getCompleteCookies E userName userPwd (clearCookieCache E w2) = (Inl e, w')
        \<longrightarrow> fetchActivityData E activityId userName userPwd False w = (Inr JNull, w')"
    by (auto simp: fetchActivityData_def str_truthy_def dest: loadCachedCookie_Some_nonempty)
  have c5: "(forceLogin \<and> getCompleteCookies E userName userPwd w = (Inr c, wl)
          \<and> wt = saveCookieToCache E c wl)
       \<or> (\<not> forceLogin \<and> loadCachedCookie E w = (Some c, w1)
          \<and> testCookieValidity E c w1 = (True, wt))
       \<or> (\<not> forceLogin \<and> loadCachedCookie E w = (None, w1)
          \<and> getCompleteCookies E userName userPwd w1 = (Inr c, wl)
          \<and> wt = saveCookieToCache E c wl)
       \<or> (\<not> forceLogin \<and> loadCachedCookie E w = (Some c0, w1)
          \<and> testCookieValidity E c0 w1 = (False, w2)
          \<and> getCompleteCookies E userName userPwd (clearCookieCache E w2) = (Inr c, wl)
          \<and> wt = saveCookieToCache E c wl)
      \<longrightarrow> (getActivityDetailsRaw E activityId c 3 wt = (Inl e, w')
             \<and> (\<forall>st. e \<noteq> AuthenticationError st)
            \<longrightarrow> fetchActivityData E activityId userName userPwd forceLogin w = (Inr JNull, w'))
          \<and> (getActivityDetailsRaw E activityId c 3 wt = (Inl (AuthenticationError st), wr)
             \<and> getCompleteCookies E userName userPwd (clearCookieCache E wr) = (Inl e, w')
            \<longrightarrow> fetchActivityData E activityId userName userPwd forceLogin w = (Inr JNull, w'))
          \<and> (getActivityDetailsRaw E activityId c 3 wt = (Inl (AuthenticationError st), wr)
             \<and> getCompleteCookies E userName userPwd (clearCookieCache E wr) = (Inr c', wl')
             \<and> getActivityDetailsRaw E activityId c' 3 (saveCookieToCache E c' wl') = (Inl e, w')
            \<longrightarrow> fetchActivityData E activityId userName userPwd forceLogin w = (Inr JNull, w'))"
  proof
    assume token: "(forceLogin \<and> getCompleteCookies E userName userPwd w = (Inr c, wl)
          \<and> wt = saveCookieToCache E c wl)
       \<or> (\<not> forceLogin \<and> loadCachedCookie E w = (Some c, w1)
          \<and> testCookieValidity E c w1 = (True, wt))
       \<or> (\<not> forceLogin \<and> loadCachedCookie E w = (None, w1)
          \<and> getCompleteCookies E userName userPwd w1 = (Inr c, wl)
          \<and> wt = saveCookieToCache E c wl)
       \<or> (\<not> forceLogin \<and> loadCachedCookie E w = (Some c0, w1)
          \<and> testCookieValidity E c0 w1 = (False, w2)
          \<and> getCompleteCookies E userName userPwd (clearCookieCache E w2) = (Inr c, wl)
          \<and> wt = saveCookieToCache E c wl)"
    from fetchActivityData_token[OF token, of activityId]
    have c: "c \<noteq> []"
      and run: "fetchActivityData E activityId userName userPwd forceLogin w
           = fetch_with_cookie E activityId userName userPwd (Some c) wt"
      by simp_all
    have exhausted: "getActivityDetailsRaw E activityId c 3 wt = (Inl e, w')
             \<and> (\<forall>st. e \<noteq> AuthenticationError st)
            \<longrightarrow> fetchActivityData E activityId userName userPwd forceLogin w = (Inr JNull, w')"
      unfolding run using c
      by (cases e) (auto simp: fetch_with_cookie_def fetch_and_parse_def)
    have relogin_fails: "getActivityDetailsRaw E activityId c 3 wt
               = (Inl (AuthenticationError st), wr)
             \<and> getCompleteCookies E userName userPwd (clearCookieCache E wr) = (Inl e, w')
            \<longrightarrow> fetchActivityData E activityId userName userPwd forceLogin w = (Inr JNull, w')"
      unfolding run using c
      by (auto simp: fetch_with_cookie_def fetch_and_parse_def relogin_and_retry_def)
    have retry_fails: "getActivityDetailsRaw E activityId c 3 wt
               = (Inl (AuthenticationError st), wr)
             \<and> getCompleteCookies E userName userPwd (clearCookieCache E wr) = (Inr c', wl')
             \<and> getActivityDetailsRaw E activityId c' 3 (saveCookieToCache E c' wl') = (Inl e, w')
            \<longrightarrow> fetchActivityData E activityId userName userPwd forceLogin w = (Inr JNull, w')"
      unfolding run using c
      by (auto simp: fetch_with_cookie_def fetch_and_parse_def relogin_and_retry_def)
    show "(getActivityDetailsRaw E activityId c 3 wt = (Inl e, w')
             \<and> (\<forall>st. e \<noteq> AuthenticationError st)
            \<longrightarrow> fetchActivityData E activityId userName userPwd forceLogin w = (Inr JNull, w'))
          \<and> (getActivityDetailsRaw E activityId c 3 wt = (Inl (AuthenticationError st), wr)
             \<and> getCompleteCookies E userName userPwd (clearCookieCache E wr) = (Inl e, w')
            \<longrightarrow> fetchActivityData E activityId userName userPwd forceLogin w = (Inr JNull, w'))
          \<and> (getActivityDetailsRaw E activityId c 3 wt = (Inl (AuthenticationError st), wr)
             \<and> getCompleteCookies E userName userPwd (clearCookieCache E wr) = (Inr c', wl')
             \<and> getActivityDetailsRaw E activityId c' 3 (saveCookieToCache E c' wl') = (Inl e, w')
            \<longrightarrow> fetchActivityData E activityId userName userPwd forceLogin w = (Inr JNull, w'))"
      by (intro conjI) (rule exhausted relogin_fails retry_fails)+
  qed
  show ?thesis
    by (intro conjI) (rule c1 c2 c3 c4 c5)+
qed

theorem fetchActivityData_never_raises_witness:
  "(\<exists>v w'. fetchActivityData rejecting_portal ''42'' ''u'' ''p'' False cached_world = (Inr v, w'))
   \<and> fetchActivityData login_down_portal ''42'' ''u'' ''p'' True (cached_world\<lparr>calls := 2\<rparr>)
       = (Inr JNull, cached_world\<lparr>calls := 3\<rparr>)
   \<and> fetchActivityData silent_portal ''42'' ''u'' ''p'' False empty_world
       = (Inr JNull, empty_world\<lparr>calls := 1, fs_ops := 1\<rparr>)
   \<and> fetchActivityData flaky_portal ''42'' ''u'' ''p'' False cached_world
       = (Inr JNull,
          \<lparr>inMemoryCookie = None, cookieFile = None, calls = 4, fs_ops = 1, sleeps = []\<rparr>)
   \<and> fetchActivityData probed_portal ''42'' ''u'' ''p'' False cached_world
       = (Inr JNull, cached_world\<lparr>calls := 4, sleeps := [1000, 2000]\<rparr>)
   \<and> fetchActivityData login_down_portal ''42'' ''u'' ''p'' False cached_world
       = (Inr JNull,
          \<lparr>inMemoryCookie = None, cookieFile = None, calls = 3, fs_ops = 1, sleeps = []\<rparr>)
   \<and> fetchActivityData rejecting_portal ''42'' ''u'' ''p'' False cached_world
       = (Inr JNull,
          \<lparr>inMemoryCookie = Some ''ASP.NET_SessionId=abc; .ASPXFORMSAUTH=tok'',
           cookieFile = Some ''ASP.NET_SessionId=abc; .ASPXFORMSAUTH=tok'',
           calls = 5, fs_ops = 3, sleeps = []\<rparr>)"
proof -
  note t = fetchActivityData_never_raises
    [where activityId = "''42''" and userName = "''u''" and userPwd = "''p''"]
  have returns: "\<exists>v w'. fetchActivityData rejecting_portal ''42'' ''u'' ''p'' False cached_world
      = (Inr v, w')"
    using t [where E = rejecting_portal and forceLogin = False and w = cached_world]
    by blast
  have forced: "fetchActivityData login_down_portal ''42'' ''u'' ''p'' True
        (cached_world\<lparr>calls := 2\<rparr>)
       = (Inr JNull, cached_world\<lparr>calls := 3\<rparr>)"
    using t [where E = login_down_portal and forceLogin = True
        and w = "cached_world\<lparr>calls := 2\<rparr>" and e = "AxiosError None"
        and w' = "cached_world\<lparr>calls := 3\<rparr>" and ?w1.0 = cached_world and ?w2.0 = cached_world
        and c0 = "''x''" and c = "''x''" and wl = cached_world and wt = cached_world and st = 0
        and wr = cached_world and c' = "''x''" and wl' = cached_world]
    by (simp add: eval_defs)
  have cold: "fetchActivityData silent_portal ''42'' ''u'' ''p'' False empty_world
       = (Inr JNull, empty_world\<lparr>calls := 1, fs_ops := 1\<rparr>)"
    using t [where E = silent_portal and forceLogin = False and w = empty_world
        and e = "AxiosError None" and w' = "empty_world\<lparr>calls := 1, fs_ops := 1\<rparr>"
        and ?w1.0 = "empty_world\<lparr>fs_ops := 1\<rparr>" and ?w2.0 = empty_world
        and c0 = "''x''" and c = "''x''" and wl = empty_world and wt = empty_world and st = 0
        and wr = empty_world and c' = "''x''" and wl' = empty_world]
    by (simp add: eval_defs silent_portal_def empty_world_def)
  have invalid: "fetchActivityData flaky_portal ''42'' ''u'' ''p'' False cached_world
       = (Inr JNull,
          \<lparr>inMemoryCookie = None, cookieFile = None, calls = 4, fs_ops = 1, sleeps = []\<rparr>)"
    using t [where E = flaky_portal and forceLogin = False and w = cached_world
        and e = "AxiosError None"
        and w' = "\<lparr>inMemoryCookie = None, cookieFile = None, calls = 4, fs_ops = 1, sleeps = []\<rparr>"
        and ?w1.0 = cached_world and ?w2.0 = "cached_world\<lparr>calls := 3\<rparr>"
        and c0 = "''old''" and c = "''x''" and wl = cached_world and wt = cached_world and st = 0
        and wr = cached_world and c' = "''x''" and wl' = cached_world]
    by (simp add: eval_defs)
  have exhausted: "fetchActivityData probed_portal ''42'' ''u'' ''p'' False cached_world
       = (Inr JNull, cached_world\<lparr>calls := 4, sleeps := [1000, 2000]\<rparr>)"
    using t [where E = probed_portal and forceLogin = False and w = cached_world
        and e = "AxiosError (Some 500)"
        and w' = "cached_world\<lparr>calls := 4, sleeps := [1000, 2000]\<rparr>"
        and ?w1.0 = cached_world and ?w2.0 = cached_world
        and c0 = "''x''" and c = "''old''" and wl = cached_world
        and wt = "cached_world\<lparr>calls := 1\<rparr>" and st = 0
        and wr = cached_world and c' = "''x''" and wl' = cached_world]
    by (simp add: eval_defs probed_portal_def)
  have relogin_fails: "fetchActivityData login_down_portal ''42'' ''u'' ''p'' False cached_world
       = (Inr JNull,
          \<lparr>inMemoryCookie = None, cookieFile = None, calls = 3, fs_ops = 1, sleeps = []\<rparr>)"
    using t [where E = login_down_portal and forceLogin = False and w = cached_world
        and e = "AxiosError None"
        and w' = "\<lparr>inMemoryCookie = None, cookieFile = None, calls = 3, fs_ops = 1, sleeps = []\<rparr>"
        and ?w1.0 = cached_world and ?w2.0 = cached_world
        and c0 = "''x''" and c = "''old''" and wl = cached_world
        and wt = "cached_world\<lparr>calls := 1\<rparr>" and st = 401
        and wr = "cached_world\<lparr>calls := 2\<rparr>" and c' = "''x''" and wl' = cached_world]
    by (simp add: eval_defs)
  have retry_fails: "fetchActivityData rejecting_portal ''42'' ''u'' ''p'' False cached_world
       = (Inr JNull,
          \<lparr>inMemoryCookie = Some ''ASP.NET_SessionId=abc; .ASPXFORMSAUTH=tok'',
           cookieFile = Some ''ASP.NET_SessionId=abc; .ASPXFORMSAUTH=tok'',
           calls = 5, fs_ops = 3, sleeps = []\<rparr>)"
    using t [where E = rejecting_portal and forceLogin = False and w = cached_world
        and e = "AuthenticationError 401"
        and w' = "\<lparr>inMemoryCookie = Some ''ASP.NET_SessionId=abc; .ASPXFORMSAUTH=tok'',
           cookieFile = Some ''ASP.NET_SessionId=abc; .ASPXFORMSAUTH=tok'',
           calls = 5, fs_ops = 3, sleeps = []\<rparr>"
        and ?w1.0 = cached_world and ?w2.0 = cached_world
        and c0 = "''x''" and c = "''old''" and wl = cached_world
        and wt = "cached_world\<lparr>calls := 1\<rparr>" and st = 401
        and wr = "cached_world\<lparr>calls := 2\<rparr>"
        and c' = "''ASP.NET_SessionId=abc; .ASPXFORMSAUTH=tok''"
        and wl' = "\<lparr>inMemoryCookie = None, cookieFile = None, calls = 4, fs_ops = 2,
           sleeps = []\<rparr>"]
    by (simp add: eval_defs)
  show ?thesis
    by (intro conjI) (rule returns forced cold invalid exhausted relogin_fails retry_fails)+
qed

section \<open>The fetch client: 4xx at once, other failures with backoff\<close>

lemma loop_4xx:
  "attempt < maxRetries \<Longrightarrow> upstream E (calls w) = Response st hs d \<Longrightarrow> 400 \<le> st \<Longrightarrow> st < 500 \<Longrightarrow>
   getActivityDetailsRaw_loop E maxRetries attempt w
     = (Inl (AuthenticationError st), w\<lparr>calls := calls w + 1\<rparr>)"
  by (subst getActivityDetailsRaw_loop.simps)
     (simp add: attempt_result_def status_2xx_def is_auth_status_def Let_def)

lemma loop_retried_step:
  "Suc attempt < maxRetries \<Longrightarrow> retryable_failure (upstream E (calls w)) = Some e \<Longrightarrow>
   getActivityDetailsRaw_loop E maxRetries attempt w
     = getActivityDetailsRaw_loop E maxRetries (Suc attempt)
         (w\<lparr>calls := calls w + 1, sleeps := sleeps w @ [1000 * (attempt + 1)]\<rparr>)"
  by (subst getActivityDetailsRaw_loop.simps)
     (auto simp: retryable_failure_def Let_def split: attempt_result.splits option.splits)

lemma loop_retried_last:
  "Suc attempt = maxRetries \<Longrightarrow> retryable_failure (upstream E (calls w)) = Some e \<Longrightarrow>
   getActivityDetailsRaw_loop E maxRetries attempt w = (Inl e, w\<lparr>calls := calls w + 1\<rparr>)"
  by (subst getActivityDetailsRaw_loop.simps)
     (auto simp: retryable_failure_def Let_def split: attempt_result.splits option.splits)

lemma loop_unexpected_step:
  "attempt < maxRetries \<Longrightarrow> attempt_result (upstream E (calls w)) = Unexpected \<Longrightarrow>
   getActivityDetailsRaw_loop E maxRetries attempt w
     = getActivityDetailsRaw_loop E maxRetries (Suc attempt) (w\<lparr>calls := calls w + 1\<rparr>)"
  by (subst getActivityDetailsRaw_loop.simps) (simp add: Let_def)

lemma loop_retried_prefix_mixed:
  "attempt + k < maxRetries \<Longrightarrow>
   (\<And>i. i < k \<Longrightarrow> retryable_failure (upstream E (calls w + i)) \<noteq> None
                  \<or> attempt_result (upstream E (calls w + i)) = Unexpected) \<Longrightarrow>
   getActivityDetailsRaw_loop E maxRetries attempt w
     = getActivityDetailsRaw_loop E maxRetries (attempt + k)
         (w\<lparr>calls := calls w + k,
            sleeps := sleeps w @ map (\<lambda>i. 1000 * (attempt + i + 1))
                        (filter (\<lambda>i. retryable_failure (upstream E (calls w + i)) \<noteq> None)
                           [0..<k])\<rparr>)"
proof (induction k)
  case 0
  then show ?case by simp
next
  case (Suc k)
  let ?P = "\<lambda>i. retryable_failure (upstream E (calls w + i)) \<noteq> None"
  let ?wk = "w\<lparr>calls := calls w + k,
            sleeps := sleeps w @ map (\<lambda>i. 1000 * (attempt + i + 1)) (filter ?P [0..<k])\<rparr>"
  have pre: "getActivityDetailsRaw_loop E maxRetries attempt w
      = getActivityDetailsRaw_loop E maxRetries (attempt + k) ?wk"
    using Suc.prems by (intro Suc.IH) auto
  have last: "?P k \<or> attempt_result (upstream E (calls w + k)) = Unexpected"
    using Suc.prems(2)[of k] by simp
  let ?tgt = "w\<lparr>calls := calls w + Suc k,
            sleeps := sleeps w @ map (\<lambda>i. 1000 * (attempt + i + 1))
                        (filter ?P [0..<Suc k])\<rparr>"
  show ?case
  proof (cases "?P k")
    case True
    then obtain e where e: "retryable_failure (upstream E (calls ?wk)) = Some e" by auto
    let ?w1 = "?wk\<lparr>calls := calls ?wk + 1, sleeps := sleeps ?wk @ [1000 * (attempt + k + 1)]\<rparr>"
    have step: "getActivityDetailsRaw_loop E maxRetries (attempt + k) ?wk
        = getActivityDetailsRaw_loop E maxRetries (Suc (attempt + k)) ?w1"
      using Suc.prems(1) e by (intro loop_retried_step) auto
    have tgt: "?w1 = ?tgt" using True by simp
    show ?thesis unfolding pre step tgt by simp
  next
    case False
    then have u: "attempt_result (upstream E (calls ?wk)) = Unexpected" using last by simp
    let ?w1 = "?wk\<lparr>calls := calls ?wk + 1\<rparr>"
    have step: "getActivityDetailsRaw_loop E maxRetries (attempt + k) ?wk
        = getActivityDetailsRaw_loop E maxRetries (Suc (attempt + k)) ?w1"
      using Suc.prems(1) u by (intro loop_unexpected_step) auto
    have tgt: "?w1 = ?tgt" using False by simp
    show ?thesis unfolding pre step tgt by simp
  qed
qed

text \<open>
  Claim C4. When the portal answers an attempt of \<open>getActivityDetailsRaw\<close> with a status in
  400..499, the call raises \<open>AuthenticationError\<close> with that status at once, whatever the
  earlier attempts were: failures that were retried, or answers with a status in 200..299
  and no string \<open>d\<close>, which the loop passes over as well. No further request is made and
  no delay is slept for that attempt: after \<open>k\<close> earlier attempts the state shows \<open>k + 1\<close>
  requests, and the delays are those of the earlier attempts that threw. When the last of
  \<open>maxRetries\<close> attempts throws an error that is not a 4xx, the call has made \<open>maxRetries\<close>
  requests, has slept 1000 ms times the number of the attempt after each earlier attempt
  that threw, and raises that last error as it is. Network errors, statuses outside
  200..299 and 400..499, and bodies that do not parse are the failures that are retried.
\<close>

theorem getActivityDetailsRaw_retry_policy:
  "(k < maxRetries
      \<and> (\<forall>i<k. retryable_failure (upstream E (calls w + i)) \<noteq> None
               \<or> attempt_result (upstream E (calls w + i)) = Unexpected)
      \<and> upstream E (calls w + k) = Response st hs d \<and> 400 \<le> st \<and> st < 500
      \<longrightarrow> getActivityDetailsRaw E activityId cookies maxRetries w
            = (Inl (AuthenticationError st),
               w\<lparr>calls := calls w + k + 1,
                  sleeps := sleeps w @ map (\<lambda>i. 1000 * (i + 1))
                    (filter (\<lambda>i. retryable_failure (upstream E (calls w + i)) \<noteq> None)
                       [0..<k])\<rparr>))
   \<and> (0 < maxRetries
      \<and> (\<forall>i<maxRetries - 1. retryable_failure (upstream E (calls w + i)) \<noteq> None
               \<or> attempt_result (upstream E (calls w + i)) = Unexpected)
      \<and> retryable_failure (upstream E (calls w + (maxRetries - 1))) = Some e
      \<longrightarrow> getActivityDetailsRaw E activityId cookies maxRetries w
            = (Inl e,
               w\<lparr>calls := calls w + maxRetries,
                  sleeps := sleeps w @ map (\<lambda>i. 1000 * (i + 1))
                    (filter (\<lambda>i. retryable_failure (upstream E (calls w + i)) \<noteq> None)
                       [0..<maxRetries - 1])\<rparr>))
   \<and> retryable_failure NoResponse = Some (AxiosError None)
   \<and> (\<not> status_2xx st' \<and> \<not> (400 \<le> st' \<and> st' < 500)
      \<longrightarrow> retryable_failure (Response st' hs' d') = Some (AxiosError (Some st')))
   \<and> (status_2xx st' \<longrightarrow> retryable_failure (Response st' hs' BodyBad) = Some JsError
                        \<and> attempt_result (Response st' hs' BodyNoD) = Unexpected)"
proof -
  let ?P = "\<lambda>i. retryable_failure (upstream E (calls w + i)) \<noteq> None"
  have c1: "k < maxRetries
      \<and> (\<forall>i<k. ?P i \<or> attempt_result (upstream E (calls w + i)) = Unexpected)
      \<and> upstream E (calls w + k) = Response st hs d \<and> 400 \<le> st \<and> st < 500
      \<longrightarrow> getActivityDetailsRaw E activityId cookies maxRetries w
            = (Inl (AuthenticationError st),
               w\<lparr>calls := calls w + k + 1,
                  sleeps := sleeps w @ map (\<lambda>i. 1000 * (i + 1)) (filter ?P [0..<k])\<rparr>)"
  proof
    assume a: "k < maxRetries
      \<and> (\<forall>i<k. ?P i \<or> attempt_result (upstream E (calls w + i)) = Unexpected)
      \<and> upstream E (calls w + k) = Response st hs d \<and> 400 \<le> st \<and> st < 500"
    let ?w = "w\<lparr>calls := calls w + k,
                sleeps := sleeps w @ map (\<lambda>i. 1000 * (0 + i + 1)) (filter ?P [0..<k])\<rparr>"
    have "getActivityDetailsRaw_loop E maxRetries 0 w
        = getActivityDetailsRaw_loop E maxRetries (0 + k) ?w"
      using a by (intro loop_retried_prefix_mixed) auto
    also have "\<dots> = (Inl (AuthenticationError st), ?w\<lparr>calls := calls ?w + 1\<rparr>)"
      using a by (intro loop_4xx[where hs = hs and d = d]) auto
    finally show "getActivityDetailsRaw E activityId cookies maxRetries w
            = (Inl (AuthenticationError st),
               w\<lparr>calls := calls w + k + 1,
                  sleeps := sleeps w @ map (\<lambda>i. 1000 * (i + 1)) (filter ?P [0..<k])\<rparr>)"
      by (simp add: getActivityDetailsRaw_def)
  qed
  have c2: "0 < maxRetries
      \<and> (\<forall>i<maxRetries - 1. ?P i \<or> attempt_result (upstream E (calls w + i)) = Unexpected)
      \<and> retryable_failure (upstream E (calls w + (maxRetries - 1))) = Some e
      \<longrightarrow> getActivityDetailsRaw E activityId cookies maxRetries w
            = (Inl e,
               w\<lparr>calls := calls w + maxRetries,
                  sleeps := sleeps w @ map (\<lambda>i. 1000 * (i + 1))
                    (filter ?P [0..<maxRetries - 1])\<rparr>)"
  proof
    assume a: "0 < maxRetries
      \<and> (\<forall>i<maxRetries - 1. ?P i \<or> attempt_result (upstream E (calls w + i)) = Unexpected)
      \<and> retryable_failure (upstream E (calls w + (maxRetries - 1))) = Some e"
    let ?k = "maxRetries - 1"
    let ?w = "w\<lparr>calls := calls w + ?k,
                sleeps := sleeps w @ map (\<lambda>i. 1000 * (0 + i + 1)) (filter ?P [0..<?k])\<rparr>"
    have "getActivityDetailsRaw_loop E maxRetries 0 w
        = getActivityDetailsRaw_loop E maxRetries (0 + ?k) ?w"
      using a by (intro loop_retried_prefix_mixed) auto
    also have "\<dots> = (Inl e, ?w\<lparr>calls := calls ?w + 1\<rparr>)"
      using a by (intro loop_retried_last) auto
    finally show "getActivityDetailsRaw E activityId cookies maxRetries w
            = (Inl e,
               w\<lparr>calls := calls w + maxRetries,
                  sleeps := sleeps w @ map (\<lambda>i. 1000 * (i + 1))
                    (filter ?P [0..<maxRetries - 1])\<rparr>)"
      using a by (simp add: getActivityDetailsRaw_def)
  qed
  have c3: "retryable_failure NoResponse = Some (AxiosError None)"
    by (simp add: retryable_failure_def attempt_result_def is_auth_status_def)
  have c4: "\<not> status_2xx st' \<and> \<not> (400 \<le> st' \<and> st' < 500)
      \<longrightarrow> retryable_failure (Response st' hs' d') = Some (AxiosError (Some st'))"
    by (simp add: retryable_failure_def attempt_result_def is_auth_status_def)
  have c5: "status_2xx st' \<longrightarrow> retryable_failure (Response st' hs' BodyBad) = Some JsError
                        \<and> attempt_result (Response st' hs' BodyNoD) = Unexpected"
    by (simp add: retryable_failure_def attempt_result_def is_auth_status_def)
  show ?thesis
    by (intro conjI) (rule c1 c2 c3 c4 c5)+
qed

theorem getActivityDetailsRaw_retry_policy_witness:
  "getActivityDetailsRaw rejecting_portal ''42'' ''old'' 3 (cached_world\<lparr>calls := 1\<rparr>)
     = (Inl (AuthenticationError 401), cached_world\<lparr>calls := 2\<rparr>)
   \<and> getActivityDetailsRaw rejecting_portal ''42'' ''old'' 3 cached_world
     = (Inl (AuthenticationError 401), cached_world\<lparr>calls := 2\<rparr>)
   \<and> getActivityDetailsRaw flaky_rejecting_portal ''42'' ''old'' 3 cached_world
     = (Inl (AuthenticationError 403), cached_world\<lparr>calls := 2, sleeps := [1000]\<rparr>)
   \<and> getActivityDetailsRaw flaky_portal ''42'' ''old'' 3 cached_world
     = (Inl (AxiosError (Some 500)), cached_world\<lparr>calls := 3, sleeps := [1000, 2000]\<rparr>)"
proof -
  have u: "[0..<2] = [0, Suc 0]" "[0..<Suc 0] = [0]"
    by (simp_all add: upt_rec)
  have a: "getActivityDetailsRaw rejecting_portal ''42'' ''old'' 3 (cached_world\<lparr>calls := 1\<rparr>)
     = (Inl (AuthenticationError 401), cached_world\<lparr>calls := 2\<rparr>)"
    using getActivityDetailsRaw_retry_policy
      [where k = 0 and maxRetries = 3 and E = rejecting_portal
        and w = "cached_world\<lparr>calls := 1\<rparr>" and st = 401 and hs = "[]" and d = BodyBad
        and activityId = "''42''" and cookies = "''old''" and e = JsError and st' = 200
        and hs' = "[]" and d' = BodyBad]
    by (simp add: rejecting_portal_def script_def cached_world_def)
  have m: "getActivityDetailsRaw rejecting_portal ''42'' ''old'' 3 cached_world
     = (Inl (AuthenticationError 401), cached_world\<lparr>calls := 2\<rparr>)"
    using getActivityDetailsRaw_retry_policy
      [where k = 1 and maxRetries = 3 and E = rejecting_portal
        and w = cached_world and st = 401 and hs = "[]" and d = BodyBad
        and activityId = "''42''" and cookies = "''old''" and e = JsError and st' = 200
        and hs' = "[]" and d' = BodyBad]
    by (simp add: rejecting_portal_def script_def cached_world_def u retryable_failure_def
        attempt_result_def status_2xx_def)
  have b: "getActivityDetailsRaw flaky_rejecting_portal ''42'' ''old'' 3 cached_world
     = (Inl (AuthenticationError 403), cached_world\<lparr>calls := 2, sleeps := [1000]\<rparr>)"
    using getActivityDetailsRaw_retry_policy
      [where k = 1 and maxRetries = 3 and E = flaky_rejecting_portal
        and w = cached_world and st = 403 and hs = "[]" and d = BodyBad
        and activityId = "''42''" and cookies = "''old''" and e = JsError and st' = 200
        and hs' = "[]" and d' = BodyBad]
    by (simp add: flaky_rejecting_portal_def script_def cached_world_def u retryable_failure_def
        attempt_result_def status_2xx_def is_auth_status_def)
  have r: "\<forall>i<3 - 1. retryable_failure (upstream flaky_portal (calls cached_world + i)) \<noteq> None
      \<or> attempt_result (upstream flaky_portal (calls cached_world + i)) = Unexpected"
  proof (intro allI impI)
    fix i :: nat
    assume "i < 3 - 1"
    then have "i = 0 \<or> i = 1" by auto
    then show "retryable_failure (upstream flaky_portal (calls cached_world + i)) \<noteq> None
      \<or> attempt_result (upstream flaky_portal (calls cached_world + i)) = Unexpected"
      by (auto simp: retryable_failure_def eval_defs)
  qed
  have c: "getActivityDetailsRaw flaky_portal ''42'' ''old'' 3 cached_world
     = (Inl (AxiosError (Some 500)), cached_world\<lparr>calls := 3, sleeps := [1000, 2000]\<rparr>)"
    using getActivityDetailsRaw_retry_policy
      [where maxRetries = 3 and E = flaky_portal and w = cached_world
        and e = "AxiosError (Some 500)" and activityId = "''42''" and cookies = "''old''"
        and k = 0 and st = 0 and hs = "[]" and d = BodyBad and st' = 200
        and hs' = "[]" and d' = BodyBad] r
    by (simp add: flaky_portal_def script_def cached_world_def u retryable_failure_def
        attempt_result_def status_2xx_def is_auth_status_def)
  show ?thesis using a m b c by simp
qed

section \<open>The login handshake: the last candidate with a value\<close>

lemma split_on_nonempty: "split_on sep s \<noteq> []"
  by (induction s) (auto split: list.splits)

lemma hd_split_on: "hd (split_on sep s) = takeWhile (\<lambda>c. c \<noteq> sep) s"
  using split_on_nonempty[of sep]
  by (induction s) (auto split: list.splits)

lemma case_last_snoc:
  "(case xs @ [x] of [] \<Rightarrow> None | a # l \<Rightarrow> Some (f (last (a # l)))) = Some (f x)"
proof -
  obtain a l where al: "xs @ [x] = a # l" by (cases xs) auto
  have "last (a # l) = x" using al last_snoc[of xs x] by simp
  then show ?thesis using al by simp
qed

lemma loop_test:
  "(length (trim (hd (split_on CHR '';'' c))) > length ''.ASPXFORMSAUTH=''
    \<and> length (drop (length ''.ASPXFORMSAUTH='') (trim (hd (split_on CHR '';'' c)))) > 0)
   = (value_part c \<noteq> [])"
  by (auto simp: value_part_def name_value_def)

lemma getMSAUTH_loop_Suc:
  "getMSAUTH_loop cs (Suc i) =
     (if value_part (cs ! i) \<noteq> [] then Some (name_value (cs ! i)) else getMSAUTH_loop cs i)"
proof -
  have ne: "length (split_on CHR '';'' (cs ! i)) > 0"
    using split_on_nonempty[of "CHR '';''" "cs ! i"] by simp
  show ?thesis
    unfolding getMSAUTH_loop.simps Let_def loop_test
    using ne by (simp add: name_value_def)
qed

lemma getMSAUTH_loop_take:
  "n \<le> length cs \<Longrightarrow>
   getMSAUTH_loop cs n =
     (case filter (\<lambda>cookie. value_part cookie \<noteq> []) (take n cs) of
        [] \<Rightarrow> None
      | a # l \<Rightarrow> Some (name_value (last (a # l))))"
proof (induction n)
  case 0
  then show ?case by simp
next
  case (Suc n)
  then have n: "n < length cs" by simp
  have tk: "take (Suc n) cs = take n cs @ [cs ! n]"
    using n by (simp add: take_Suc_conv_app_nth)
  show ?case
  proof (cases "value_part (cs ! n) = []")
    case True
    then show ?thesis
      using Suc n by (simp only: getMSAUTH_loop_Suc tk filter_append) simp
  next
    case False
    then have "filter (\<lambda>cookie. value_part cookie \<noteq> []) (take (Suc n) cs)
        = filter (\<lambda>cookie. value_part cookie \<noteq> []) (take n cs) @ [cs ! n]"
      by (simp only: tk filter_append) simp
    then show ?thesis
      using False by (simp only: getMSAUTH_loop_Suc case_last_snoc) simp
  qed
qed

lemma formsAuthCookieValue_last:
  "formsAuthCookieValue setCookieHeader = last_nonempty_candidate setCookieHeader"
proof (cases "aspx_candidates setCookieHeader = []")
  case True
  then show ?thesis
    by (simp add: formsAuthCookieValue_def last_nonempty_candidate_def
        aspx_candidates_def[symmetric])
next
  case False
  then have "setCookieHeader \<noteq> []" by (auto simp: aspx_candidates_def)
  then show ?thesis
    using False getMSAUTH_loop_take[of "length (aspx_candidates setCookieHeader)"
        "aspx_candidates setCookieHeader"]
    by (simp add: formsAuthCookieValue_def last_nonempty_candidate_def
        aspx_candidates_def[symmetric] split: list.splits)
qed

lemma last_nonempty_candidate_nonempty:
  "last_nonempty_candidate hs = Some v \<Longrightarrow> v \<noteq> []"
proof -
  assume a: "last_nonempty_candidate hs = Some v"
  let ?xs = "filter (\<lambda>cookie. value_part cookie \<noteq> []) (aspx_candidates hs)"
  from a have ne: "?xs \<noteq> []" and v: "v = name_value (last ?xs)"
    by (auto simp: last_nonempty_candidate_def split: list.splits)
  from ne have "last ?xs \<in> set ?xs" by (rule last_in_set)
  then have "value_part (last ?xs) \<noteq> []" by simp
  then show ?thesis using v by (auto simp: value_part_def)
qed

lemma getMSAUTH_selects:
  "\<not> fs_faults E (fs_ops w) \<Longrightarrow> templateFile E \<Longrightarrow> upstream E (calls w) = Response st hs d \<Longrightarrow>
   200 \<le> st \<Longrightarrow> st < 400 \<Longrightarrow>
   fst (getMSAUTH E sessionId userName userPwd w) = Inr (last_nonempty_candidate hs)"
  using last_nonempty_candidate_nonempty[of hs]
  by (auto simp: getMSAUTH_def fs_op_def axios_request_def status_2xx_3xx_def Let_def
      formsAuthCookieValue_last split: option.splits)

lemma trim_is_prefix: "\<exists>t. dropWhile is_ws c = trim c @ t"
proof -
  let ?r = "dropWhile is_ws c"
  have "rev ?r = takeWhile is_ws (rev ?r) @ dropWhile is_ws (rev ?r)" by simp
  then have "?r = rev (dropWhile is_ws (rev ?r)) @ rev (takeWhile is_ws (rev ?r))"
    by (metis rev_append rev_rev_ident)
  then show ?thesis unfolding trim_def by blast
qed

lemma dropWhile_append_keep:
  "zs \<noteq> [] \<Longrightarrow> \<not> p (hd zs) \<Longrightarrow> \<exists>v. dropWhile p (ys @ zs) = v @ zs"
proof (induction ys)
  case Nil
  then show ?case by (cases zs) (auto intro: exI[of _ "[]"])
next
  case (Cons y ys)
  then show ?case by (cases "p y") (auto intro: exI[of _ "y # ys"])
qed

lemma trim_keeps_prefix:
  assumes P: "P \<noteq> []" "\<not> is_ws (hd P)" "\<not> is_ws (last P)"
    and ws: "\<forall>x\<in>set ws1. is_ws x"
  shows "startsWith (trim (ws1 @ P @ t)) P"
proof -
  have d: "dropWhile is_ws (ws1 @ P @ t) = P @ t"
    using ws P by (cases P) (auto simp: dropWhile_append2)
  have "rev (P @ t) = rev t @ rev P" by simp
  moreover have "rev P \<noteq> []" "\<not> is_ws (hd (rev P))"
    using P by (simp_all add: hd_rev)
  ultimately obtain v where "dropWhile is_ws (rev (P @ t)) = v @ rev P"
    using dropWhile_append_keep[of "rev P" is_ws "rev t"] by auto
  then have "trim (ws1 @ P @ t) = P @ rev v"
    unfolding trim_def d by simp
  then show ?thesis by (simp add: startsWith_def)
qed

lemma candidate_name_value:
  assumes c: "startsWith (trim cookie) ''.ASPXFORMSAUTH=''"
  shows "startsWith (name_value cookie) ''.ASPXFORMSAUTH=''"
proof -
  let ?P = "''.ASPXFORMSAUTH=''"
  let ?ws1 = "takeWhile is_ws cookie"
  obtain t where t: "dropWhile is_ws cookie = trim cookie @ t"
    using trim_is_prefix by blast
  have "trim cookie = ?P @ drop (length ?P) (trim cookie)"
    using c unfolding startsWith_def by (metis append_take_drop_id)
  then obtain u where u: "trim cookie = ?P @ u" ..
  have cookie: "cookie = (?ws1 @ ?P) @ (u @ t)"
    using t u by (metis append.assoc takeWhile_dropWhile_id)
  have semi: "\<forall>x\<in>set (?ws1 @ ?P). x \<noteq> CHR '';''"
    by (auto simp: is_ws_def dest!: set_takeWhileD)
  have "takeWhile (\<lambda>x. x \<noteq> CHR '';'') cookie
      = (?ws1 @ ?P) @ takeWhile (\<lambda>x. x \<noteq> CHR '';'') (u @ t)"
    using semi takeWhile_append2[of "?ws1 @ ?P" "\<lambda>x. x \<noteq> CHR '';''" "u @ t"]
    by (subst cookie) blast
  then have "name_value cookie = trim (?ws1 @ ?P @ takeWhile (\<lambda>x. x \<noteq> CHR '';'') (u @ t))"
    by (simp add: name_value_def hd_split_on)
  moreover have "startsWith (trim (?ws1 @ ?P @ takeWhile (\<lambda>x. x \<noteq> CHR '';'') (u @ t))) ?P"
    by (rule trim_keeps_prefix) (auto simp: is_ws_def dest: set_takeWhileD)
  ultimately show ?thesis by simp
qed

text \<open>
  Claim C8. From the \<open>Set-Cookie\<close> headers of the form submission's response \<open>getMSAUTH\<close>
  selects, among the \<open>.ASPXFORMSAUTH\<close> candidates, the last one whose value part is not
  empty, and returns its \<open>name=value\<close> fragment (which starts with the cookie's name, so
  that the value part is what follows it); it returns \<open>null\<close> when there is no such
  candidate, and the login then fails. A login that succeeds returns the session fragment
  and the forms fragment joined by \<open>"; "\<close>.
\<close>

theorem getMSAUTH_last_nonempty_candidate:
  "formsAuthCookieValue setCookieHeader = last_nonempty_candidate setCookieHeader
   \<and> (cookie \<in> set (aspx_candidates setCookieHeader)
        \<longrightarrow> startsWith (name_value cookie) ''.ASPXFORMSAUTH='')
   \<and> (\<not> fs_faults E (fs_ops w) \<and> templateFile E
        \<and> upstream E (calls w) = Response st setCookieHeader d \<and> 200 \<le> st \<and> st < 400
        \<longrightarrow> fst (getMSAUTH E sessionId userName userPwd w)
              = Inr (last_nonempty_candidate setCookieHeader))
   \<and> (getSessionId E w = (Inr (Some sessionId), w1)
        \<and> getMSAUTH E sessionId userName userPwd w1 = (Inr (Some msAuth), w2)
        \<longrightarrow> getCompleteCookies E userName userPwd w = (Inr (sessionId @ ''; '' @ msAuth), w2))
   \<and> (getSessionId E w = (Inr (Some sessionId), w1)
        \<and> getMSAUTH E sessionId userName userPwd w1 = (Inr None, w2)
        \<longrightarrow> getCompleteCookies E userName userPwd w = (Inl LoginError, w2))"
proof -
  have c1: "formsAuthCookieValue setCookieHeader = last_nonempty_candidate setCookieHeader"
    by (rule formsAuthCookieValue_last)
  have c2: "cookie \<in> set (aspx_candidates setCookieHeader)
        \<longrightarrow> startsWith (name_value cookie) ''.ASPXFORMSAUTH=''"
    by (simp add: aspx_candidates_def candidate_name_value)
  have c3: "\<not> fs_faults E (fs_ops w) \<and> templateFile E
        \<and> upstream E (calls w) = Response st setCookieHeader d \<and> 200 \<le> st \<and> st < 400
        \<longrightarrow> fst (getMSAUTH E sessionId userName userPwd w)
              = Inr (last_nonempty_candidate setCookieHeader)"
    using getMSAUTH_selects[of E w st setCookieHeader d sessionId userName userPwd] by blast
  have c4: "getSessionId E w = (Inr (Some sessionId), w1)
        \<and> getMSAUTH E sessionId userName userPwd w1 = (Inr (Some msAuth), w2)
        \<longrightarrow> getCompleteCookies E userName userPwd w = (Inr (sessionId @ ''; '' @ msAuth), w2)"
    by (simp add: getCompleteCookies_def)
  have c5: "getSessionId E w = (Inr (Some sessionId), w1)
        \<and> getMSAUTH E sessionId userName userPwd w1 = (Inr None, w2)
        \<longrightarrow> getCompleteCookies E userName userPwd w = (Inl LoginError, w2)"
    by (simp add: getCompleteCookies_def)
  show ?thesis
    by (intro conjI) (rule c1 c2 c3 c4 c5)+
qed

theorem getMSAUTH_last_nonempty_candidate_witness:
  "formsAuthCookieValue
      [''.ASPXFORMSAUTH=first; path=/'', ''.ASPXFORMSAUTH=; expires=x'',
       '' .ASPXFORMSAUTH=last ; HttpOnly'', ''.ASPXFORMSAUTH=; path=/'']
     = Some ''.ASPXFORMSAUTH=last''
   \<and> getCompleteCookies rejecting_portal ''u'' ''p'' (cached_world\<lparr>calls := 2\<rparr>)
     = (Inr ''ASP.NET_SessionId=abc; .ASPXFORMSAUTH=tok'',
        cached_world\<lparr>calls := 4, fs_ops := 1\<rparr>)
   \<and> getCompleteCookies empty_auth_portal ''u'' ''p'' cached_world
     = (Inl LoginError, cached_world\<lparr>calls := 2, fs_ops := 1\<rparr>)"
  using getMSAUTH_last_nonempty_candidate
    [where setCookieHeader =
        "[''.ASPXFORMSAUTH=first; path=/'', ''.ASPXFORMSAUTH=; expires=x'',
          '' .ASPXFORMSAUTH=last ; HttpOnly'', ''.ASPXFORMSAUTH=; path=/'']"
      and cookie = "'' .ASPXFORMSAUTH=last ; HttpOnly''"]
    getMSAUTH_last_nonempty_candidate
    [where E = rejecting_portal and w = "cached_world\<lparr>calls := 2\<rparr>"
      and sessionId = "''ASP.NET_SessionId=abc''" and userName = "''u''" and userPwd = "''p''"
      and ?w1.0 = "cached_world\<lparr>calls := 3\<rparr>" and msAuth = "''.ASPXFORMSAUTH=tok''"
      and ?w2.0 = "cached_world\<lparr>calls := 4, fs_ops := 1\<rparr>"]
    getMSAUTH_last_nonempty_candidate
    [where E = empty_auth_portal and w = cached_world
      and sessionId = "''ASP.NET_SessionId=abc''" and userName = "''u''" and userPwd = "''p''"
      and ?w1.0 = "cached_world\<lparr>calls := 1\<rparr>"
      and ?w2.0 = "cached_world\<lparr>calls := 2, fs_ops := 1\<rparr>"]
  by (simp add: eval_defs last_nonempty_candidate_def aspx_candidates_def value_part_def
      name_value_def)

section \<open>What the functions of the token module leave alone\<close>

lemma net_only_refl [simp]: "net_only w w"
  by (simp add: net_only_def)

lemma net_only_trans: "net_only w w1 \<Longrightarrow> net_only w1 w2 \<Longrightarrow> net_only w w2"
  by (simp add: net_only_def)

lemma net_only_upd [simp]:
  "net_only w (w1\<lparr>calls := c\<rparr>) = net_only w w1"
  "net_only w (w1\<lparr>fs_ops := f\<rparr>) = net_only w w1"
  "net_only w (w1\<lparr>sleeps := sl\<rparr>) = net_only w w1"
  by (simp_all add: net_only_def)

lemma axios_request_net: "axios_request E v w = (r, w') \<Longrightarrow> net_only w w'"
  by (auto simp: axios_request_def Let_def split: http_result.splits if_splits)

lemma testCookieValidity_loop_net:
  "net_only w0 w \<Longrightarrow> net_only w0 (snd (testCookieValidity_loop E attempt w))"
proof (induction E attempt w rule: testCookieValidity_loop.induct)
  case (1 E attempt w)
  obtain r w1 where ax: "axios_request E status_2xx w = (r, w1)"
    by (cases "axios_request E status_2xx w")
  have n1: "net_only w0 w1"
    using "1.prems" axios_request_net[OF ax] by (rule net_only_trans)
  have IH: "net_only w0 (snd (testCookieValidity_loop E (attempt + 1) w1))"
    if "attempt < 3" "r = Inl e" "\<not> 3 \<le> attempt + 1" for e
    using "1.IH"[OF that(1) ax[symmetric] that(2) that(3) n1] .
  show ?case
    by (subst testCookieValidity_loop.simps) (use "1.prems" ax n1 IH in \<open>auto split: sum.splits\<close>)
qed

lemma testCookieValidity_net: "testCookieValidity E c w = (r, w') \<Longrightarrow> net_only w w'"
  using testCookieValidity_loop_net[of w w E 0]
  by (auto simp: testCookieValidity_def split: if_splits)

lemma getActivityDetailsRaw_loop_net:
  "net_only w0 w \<Longrightarrow> net_only w0 (snd (getActivityDetailsRaw_loop E maxRetries attempt w))"
proof (induction E maxRetries attempt w rule: getActivityDetailsRaw_loop.induct)
  case (1 E maxRetries attempt w)
  show ?case
    apply (subst getActivityDetailsRaw_loop.simps)
    using "1.prems" "1.IH"
    apply (auto simp: Let_def split: attempt_result.splits option.splits)
    done
qed

lemma getActivityDetailsRaw_net:
  "getActivityDetailsRaw E activityId c n w = (r, w') \<Longrightarrow> net_only w w'"
  using getActivityDetailsRaw_loop_net[of w w E n 0] by (simp add: getActivityDetailsRaw_def)

lemma fetch_and_parse_net: "fetch_and_parse E activityId c w = (r, w') \<Longrightarrow> net_only w w'"
  by (auto simp: fetch_and_parse_def split: prod.splits sum.splits option.splits
      dest: getActivityDetailsRaw_net)

lemma getSessionId_net: "getSessionId E w = (r, w') \<Longrightarrow> net_only w w'"
  by (auto simp: getSessionId_def Let_def split: prod.splits sum.splits option.splits if_splits
      dest: axios_request_net)

lemma getMSAUTH_net: "getMSAUTH E sid u p w = (r, w') \<Longrightarrow> net_only w w'"
  by (auto simp: getMSAUTH_def fs_op_def Let_def
      split: prod.splits sum.splits option.splits if_splits bool.splits
      dest!: axios_request_net) (auto simp: net_only_def)

lemma getCompleteCookies_net: "getCompleteCookies E u p w = (r, w') \<Longrightarrow> net_only w w'"
  by (auto simp: getCompleteCookies_def split: prod.splits sum.splits option.splits
      dest!: getSessionId_net getMSAUTH_net intro: net_only_trans)

lemma clearCookieCache_more [simp]: "world.more (clearCookieCache E w) = world.more w"
  by (simp add: clearCookieCache_def fs_op_def split: bool.splits)

lemma saveCookieToCache_more [simp]: "world.more (saveCookieToCache E c w) = world.more w"
  by (simp add: saveCookieToCache_def fs_op_def split: bool.splits)

lemma loadCachedCookie_more: "loadCachedCookie E w = (r, w') \<Longrightarrow> world.more w' = world.more w"
  by (auto simp: loadCachedCookie_def fs_op_def split: bool.splits option.splits if_splits)

lemma net_only_more: "net_only w w' \<Longrightarrow> world.more w' = world.more w"
  by (simp add: net_only_def)

lemma relogin_and_retry_more:
  "relogin_and_retry E activityId u p w = (r, w') \<Longrightarrow> world.more w' = world.more w"
  by (auto simp: relogin_and_retry_def split: prod.splits sum.splits
      dest!: getCompleteCookies_net fetch_and_parse_net net_only_more)

lemma fetch_with_cookie_more:
  "fetch_with_cookie E activityId u p c w = (r, w') \<Longrightarrow> world.more w' = world.more w"
  by (auto simp: fetch_with_cookie_def split: prod.splits sum.splits option.splits if_splits exn.splits
      dest!: relogin_and_retry_more fetch_and_parse_net net_only_more)

lemma fetchActivityData_more:
  "fetchActivityData E activityId u p force w = (r, w') \<Longrightarrow> world.more w' = world.more w"
  by (auto simp: fetchActivityData_def Let_def
      split: prod.splits sum.splits option.splits if_splits
      dest!: fetch_with_cookie_more getCompleteCookies_net testCookieValidity_net
        loadCachedCookie_more net_only_more)

lemma saveCookieToCache_mem:
  "c \<noteq> [] \<Longrightarrow> inMemoryCookie (saveCookieToCache E c w) = Some c"
  by (simp add: saveCookieToCache_def fs_op_def split: bool.splits)

lemma saveCookieToCache_file:
  "c \<noteq> [] \<Longrightarrow> \<not> fs_faults E (fs_ops w) \<Longrightarrow> cookieFile (saveCookieToCache E c w) = Some c"
  by (simp add: saveCookieToCache_def fs_op_def split: bool.splits)

lemma clearCookieCache_mem: "inMemoryCookie (clearCookieCache E w) = None"
  by (simp add: clearCookieCache_def fs_op_def split: bool.splits)

lemma clearCookieCache_file:
  "\<not> fs_faults E (fs_ops w) \<Longrightarrow> cookieFile (clearCookieCache E w) = None"
  by (simp add: clearCookieCache_def fs_op_def split: bool.splits)

lemma fetch_and_parse_auth:
  "getActivityDetailsRaw E activityId c 3 w = (Inl e, w') \<Longrightarrow>
   fetch_and_parse E activityId c w = (Inl e, w')"
  by (simp add: fetch_and_parse_def)

section \<open>A rejection after the re-login\<close>

text \<open>
  Claim C1, amended. In a call of \<open>fetchActivityData\<close> in which a cached token is loaded
  and probes valid and the fetch raises an authentication rejection, the token store is
  cleared and one re-login follows. If the re-login succeeds and the retried fetch is
  rejected again, the call returns \<open>null\<close> and the token store ends holding the token of
  the re-login: the in-memory holder always, the file when its write did not fail. If the
  re-login itself fails, the call returns \<open>null\<close> and the in-memory holder ends empty, and
  so does the file when its deletion did not fail.
\<close>

theorem fetchActivityData_double_rejection:
  assumes cached: "loadCachedCookie E w = (Some c, w1)"
    and valid: "testCookieValidity E c w1 = (True, w2)"
    and first: "getActivityDetailsRaw E activityId c 3 w2 = (Inl (AuthenticationError st), w3)"
  shows "(getCompleteCookies E userName userPwd (clearCookieCache E w3) = (Inr c', w4)
          \<and> getActivityDetailsRaw E activityId c' 3 (saveCookieToCache E c' w4)
              = (Inl (AuthenticationError st'), w5)
          \<longrightarrow> fetchActivityData E activityId userName userPwd False w = (Inr JNull, w5)
              \<and> inMemoryCookie w5 = Some c' \<and> c' \<noteq> []
              \<and> (\<not> fs_faults E (fs_ops w4) \<longrightarrow> cookieFile w5 = Some c'))
       \<and> (getCompleteCookies E userName userPwd (clearCookieCache E w3) = (Inl e, w4)
          \<longrightarrow> fetchActivityData E activityId userName userPwd False w = (Inr JNull, w4)
              \<and> inMemoryCookie w4 = None
              \<and> (\<not> fs_faults E (fs_ops w3) \<longrightarrow> cookieFile w4 = None))"
proof -
  have c: "c \<noteq> []"
    using cached by (auto simp: loadCachedCookie_def str_truthy_def fs_op_def
        split: option.splits if_splits bool.splits)
  have fp: "fetch_and_parse E activityId c w2 = (Inl (AuthenticationError st), w3)"
    using first by (rule fetch_and_parse_auth)
  have main: "fetchActivityData E activityId userName userPwd False w
      = relogin_and_retry E activityId userName userPwd w3"
    using cached valid fp c
    by (simp add: fetchActivityData_def fetch_with_cookie_def str_truthy_def)
  have A: "fetchActivityData E activityId userName userPwd False w = (Inr JNull, w5)
      \<and> inMemoryCookie w5 = Some c' \<and> c' \<noteq> []
      \<and> (\<not> fs_faults E (fs_ops w4) \<longrightarrow> cookieFile w5 = Some c')"
    if login: "getCompleteCookies E userName userPwd (clearCookieCache E w3) = (Inr c', w4)"
      and retry: "getActivityDetailsRaw E activityId c' 3 (saveCookieToCache E c' w4)
              = (Inl (AuthenticationError st'), w5)"
  proof -
    have ne: "c' \<noteq> []" using login by (rule getCompleteCookies_nonempty)
    have n: "net_only (saveCookieToCache E c' w4) w5"
      using retry by (rule getActivityDetailsRaw_net)
    have "fetch_and_parse E activityId c' (saveCookieToCache E c' w4)
        = (Inl (AuthenticationError st'), w5)"
      using retry by (rule fetch_and_parse_auth)
    then have "relogin_and_retry E activityId userName userPwd w3 = (Inr JNull, w5)"
      using login by (simp add: relogin_and_retry_def)
    then show ?thesis
      using main ne n saveCookieToCache_mem[OF ne, of E w4] saveCookieToCache_file[OF ne, of E w4]
      by (simp add: net_only_def)
  qed
  have B: "fetchActivityData E activityId userName userPwd False w = (Inr JNull, w4)
      \<and> inMemoryCookie w4 = None
      \<and> (\<not> fs_faults E (fs_ops w3) \<longrightarrow> cookieFile w4 = None)"
    if login: "getCompleteCookies E userName userPwd (clearCookieCache E w3) = (Inl e, w4)"
  proof -
    have n: "net_only (clearCookieCache E w3) w4"
      using login by (rule getCompleteCookies_net)
    have "relogin_and_retry E activityId userName userPwd w3 = (Inr JNull, w4)"
      using login by (simp add: relogin_and_retry_def)
    then show ?thesis
      using main n clearCookieCache_mem[of E w3] clearCookieCache_file[of E w3]
      by (simp add: net_only_def)
  qed
  show ?thesis using A B by blast
qed

theorem fetchActivityData_double_rejection_witness:
  "fetchActivityData rejecting_portal ''42'' ''u'' ''p'' False cached_world
     = (Inr JNull,
        \<lparr>inMemoryCookie = Some ''ASP.NET_SessionId=abc; .ASPXFORMSAUTH=tok'',
         cookieFile = Some ''ASP.NET_SessionId=abc; .ASPXFORMSAUTH=tok'',
         calls = 5, fs_ops = 3, sleeps = []\<rparr>)
   \<and> fetchActivityData login_down_portal ''42'' ''u'' ''p'' False cached_world
     = (Inr JNull,
        \<lparr>inMemoryCookie = None, cookieFile = None, calls = 3, fs_ops = 1, sleeps = []\<rparr>)"
proof -
  have rejected_twice:
    "fetchActivityData rejecting_portal ''42'' ''u'' ''p'' False cached_world
       = (Inr JNull,
          \<lparr>inMemoryCookie = Some ''ASP.NET_SessionId=abc; .ASPXFORMSAUTH=tok'',
           cookieFile = Some ''ASP.NET_SessionId=abc; .ASPXFORMSAUTH=tok'',
           calls = 5, fs_ops = 3, sleeps = []\<rparr>)"
    using fetchActivityData_double_rejection
      [where E = rejecting_portal and w = cached_world and c = "''old''" and ?w1.0 = cached_world
        and ?w2.0 = "cached_world\<lparr>calls := 1\<rparr>" and activityId = "''42''" and st = 401
        and ?w3.0 = "cached_world\<lparr>calls := 2\<rparr>" and userName = "''u''"
        and userPwd = "''p''"
        and c' = "''ASP.NET_SessionId=abc; .ASPXFORMSAUTH=tok''"
        and ?w4.0 =
          "\<lparr>inMemoryCookie = None, cookieFile = None, calls = 4, fs_ops = 2, sleeps = []\<rparr>"
        and st' = 401
        and ?w5.0 =
          "\<lparr>inMemoryCookie = Some ''ASP.NET_SessionId=abc; .ASPXFORMSAUTH=tok'',
            cookieFile = Some ''ASP.NET_SessionId=abc; .ASPXFORMSAUTH=tok'',
            calls = 5, fs_ops = 3, sleeps = []\<rparr>"
        and e = JsError]
    by (simp add: eval_defs)
  have login_down:
    "fetchActivityData login_down_portal ''42'' ''u'' ''p'' False cached_world
       = (Inr JNull,
          \<lparr>inMemoryCookie = None, cookieFile = None, calls = 3, fs_ops = 1, sleeps = []\<rparr>)"
    using fetchActivityData_double_rejection
      [where E = login_down_portal and w = cached_world and c = "''old''"
        and ?w1.0 = cached_world
        and ?w2.0 = "cached_world\<lparr>calls := 1\<rparr>" and activityId = "''42''" and st = 401
        and ?w3.0 = "cached_world\<lparr>calls := 2\<rparr>" and userName = "''u''"
        and userPwd = "''p''"
        and ?w4.0 =
          "\<lparr>inMemoryCookie = None, cookieFile = None, calls = 3, fs_ops = 1, sleeps = []\<rparr>"
        and e = "AxiosError None" and c' = "''x''" and st' = 401 and ?w5.0 = cached_world]
    by (simp add: eval_defs)
  show ?thesis
    by (rule conjI [OF rejected_twice login_down])
qed

text \<open>
  The claim as it stands fails on the first of these runs: the cached token probes valid,
  both fetches are rejected with 401, the call returns \<open>null\<close>, and neither the in-memory
  holder nor the file ends empty.
\<close>

theorem token_store_not_empty_after_double_rejection:
  "testCookieValidity rejecting_portal ''old'' cached_world
     = (True, cached_world\<lparr>calls := 1\<rparr>)
   \<and> getActivityDetailsRaw rejecting_portal ''42'' ''old'' 3 (cached_world\<lparr>calls := 1\<rparr>)
     = (Inl (AuthenticationError 401), cached_world\<lparr>calls := 2\<rparr>)
   \<and> fst (getActivityDetailsRaw rejecting_portal ''42''
            ''ASP.NET_SessionId=abc; .ASPXFORMSAUTH=tok'' 3
            \<lparr>inMemoryCookie = Some ''ASP.NET_SessionId=abc; .ASPXFORMSAUTH=tok'',
             cookieFile = Some ''ASP.NET_SessionId=abc; .ASPXFORMSAUTH=tok'',
             calls = 4, fs_ops = 3, sleeps = []\<rparr>)
     = Inl (AuthenticationError 401)
   \<and> fst (fetchActivityData rejecting_portal ''42'' ''u'' ''p'' False cached_world) = Inr JNull
   \<and> inMemoryCookie (snd (fetchActivityData rejecting_portal ''42'' ''u'' ''p'' False
        cached_world)) \<noteq> None
   \<and> cookieFile (snd (fetchActivityData rejecting_portal ''42'' ''u'' ''p'' False
        cached_world)) \<noteq> None"
  by (simp add: eval_defs)

section \<open>Writes to the activity cache\<close>

lemma same_cache_refl [simp]: "same_cache s s"
  by (simp add: same_cache_def)

lemma same_cache_trans: "same_cache s s1 \<Longrightarrow> same_cache s1 s2 \<Longrightarrow> same_cache s s2"
  by (simp add: same_cache_def)

lemma sys_more_same_cache: "world.more s' = world.more s \<Longrightarrow> same_cache s s'"
  by (cases s, cases s') (simp add: same_cache_def)

lemma fetchActivityData_same_cache:
  "fetchActivityData E activityId u p force s = (r, s') \<Longrightarrow> same_cache s s'"
  by (rule sys_more_same_cache) (rule fetchActivityData_more)

lemma new_Date_toISOString_eq:
  "new_Date_toISOString E s = (t, s') \<Longrightarrow>
     t = toISOString E (clock E (ticks s)) \<and> same_cache s s'"
  by (auto simp: new_Date_toISOString_def same_cache_def)

lemma uploadImageFromBase64_same_cache:
  "uploadImageFromBase64 E cfg b f activityId s = (r, s') \<Longrightarrow> same_cache s s'"
  by (auto simp: uploadImageFromBase64_def s3_op_def Let_def same_cache_def
      split: if_splits bool.splits)

lemma offload_photo_same_cache:
  "offload_photo E cfg activityId structured s = (r, s') \<Longrightarrow> same_cache s s'"
  by (auto simp: offload_photo_def
      split: option.splits jv.splits if_splits sum.splits prod.splits
      dest: uploadImageFromBase64_same_cache)

lemma setActivityData_wrote: "wrote activityId data s (setActivityData E activityId data s)"
  by (simp add: setActivityData_def wrote_def redis_op_def split: bool.splits)

lemma wrote_same_cache_left: "same_cache s s1 \<Longrightarrow> wrote i d s1 s2 \<Longrightarrow> wrote i d s s2"
  by (auto simp: wrote_def same_cache_def)

lemma stamp_and_store:
  assumes "same_cache s s2" "new_Date_toISOString E s2 = (t, s3)"
    "map_of kvs ''lastCheck'' = Some (JStr t)"
  shows "stamped E (JObj kvs)"
    and "wrote activityId (JObj kvs) s (setActivityData E activityId (JObj kvs) s3)"
proof -
  from assms(2) have t: "t = toISOString E (clock E (ticks s2))" and c: "same_cache s2 s3"
    using new_Date_toISOString_eq by blast+
  show "stamped E (JObj kvs)"
    unfolding stamped_def using assms(3) t by blast
  have "same_cache s s3" using assms(1) c by (rule same_cache_trans)
  then show "wrote activityId (JObj kvs) s (setActivityData E activityId (JObj kvs) s3)"
    using setActivityData_wrote by (rule wrote_same_cache_left)
qed

lemma processAndCacheActivity_try_wrote:
  assumes a: "processAndCacheActivity_try E cfg activityId s = (r, s')"
  shows "case r of
        Inl e \<Rightarrow> same_cache s s'
      | Inr data \<Rightarrow> stamped E data \<and> wrote activityId data s s'"
proof (cases "\<not> str_truthy (API_USERNAME cfg) \<or> \<not> str_truthy (API_PASSWORD cfg)")
  case True
  then show ?thesis using a by (auto simp: processAndCacheActivity_try_def)
next
  case False
  obtain rf s1 where f: "fetchActivityData E activityId (env_str (API_USERNAME cfg))
                (env_str (API_PASSWORD cfg)) False s = (rf, s1)"
    by (cases "fetchActivityData E activityId (env_str (API_USERNAME cfg))
                (env_str (API_PASSWORD cfg)) False s")
  have c1: "same_cache s s1" using f by (rule fetchActivityData_same_cache)
  show ?thesis
  proof (cases rf)
    case (Inl e)
    then show ?thesis using a False f c1 by (auto simp: processAndCacheActivity_try_def)
  next
    case (Inr activityJson)
    define mid where "mid =
       (if \<not> truthy activityJson then
          (case new_Date_toISOString E s1 of
             (t, s2) \<Rightarrow>
               (Inr [(''lastCheck'', JStr t), (''source'', JStr ''api-fetch-empty'')], s2))
        else
          (case structActivityData E activityJson of
             Inl e \<Rightarrow> (Inl e, s1)
           | Inr structuredActivity \<Rightarrow>
               offload_photo E cfg activityId structuredActivity s1))"
    obtain rm s2 where m: "mid = (rm, s2)" by (cases mid)
    have c2: "same_cache s1 s2"
      using m unfolding mid_def
      by (auto split: if_splits prod.splits sum.splits
          dest: new_Date_toISOString_eq offload_photo_same_cache)
    have c12: "same_cache s s2" using c1 c2 by (rule same_cache_trans)
    have unfolded: "processAndCacheActivity_try E cfg activityId s =
       (case mid of
          (Inl e, s2) \<Rightarrow> (Inl e, s2)
        | (Inr structuredActivity, s2) \<Rightarrow>
            (case new_Date_toISOString E s2 of
               (t, s3) \<Rightarrow>
                 (let stored = JObj (AList.update ''lastCheck'' (JStr t) structuredActivity)
                  in (Inr stored, setActivityData E activityId stored s3))))"
      using False f Inr by (simp add: processAndCacheActivity_try_def mid_def)
    show ?thesis
    proof (cases rm)
      case (Inl e)
      then show ?thesis using a unfolded m c12 by auto
    next
      case rmInr: (Inr structuredActivity)
      obtain t s3 where nd: "new_Date_toISOString E s2 = (t, s3)"
        by (cases "new_Date_toISOString E s2")
      have "map_of (AList.update ''lastCheck'' (JStr t) structuredActivity) ''lastCheck''
          = Some (JStr t)" by (simp add: update_conv')
      note st = stamp_and_store[OF c12 nd this]
      show ?thesis
        using a unfolded m rmInr nd st by (auto simp: Let_def)
    qed
  qed
qed

lemma processAndCacheActivity_wrote:
  "processAndCacheActivity E cfg activityId s = (data, s') \<Longrightarrow>
     stamped E data
     \<and> wrote activityId data (s\<lparr>events := events s @ [Processing activityId]\<rparr>) s'"
proof -
  assume a: "processAndCacheActivity E cfg activityId s = (data, s')"
  let ?s0 = "s\<lparr>events := events s @ [Processing activityId]\<rparr>"
  obtain r s1 where tr: "processAndCacheActivity_try E cfg activityId ?s0 = (r, s1)"
    by (cases "processAndCacheActivity_try E cfg activityId ?s0")
  note w = processAndCacheActivity_try_wrote[OF tr]
  show ?thesis
  proof (cases r)
    case (Inr d)
    then show ?thesis using a tr w by (simp add: processAndCacheActivity_def)
  next
    case (Inl e)
    obtain t s2 where nd: "new_Date_toISOString E s1 = (t, s2)"
      by (cases "new_Date_toISOString E s1")
    have sc: "same_cache ?s0 s1" using w Inl by simp
    have "map_of [(''lastCheck'', JStr t), (''error'', JStr ''Failed to fetch or process'')]
        ''lastCheck'' = Some (JStr t)" by simp
    note st = stamp_and_store[OF sc nd this]
    show ?thesis
      using a tr Inl nd st by (auto simp: processAndCacheActivity_def Let_def)
  qed
qed

lemma fetchProcessAndStoreActivity_wrote:
  assumes a: "fetchProcessAndStoreActivity E cfg activityId s = (r, s')"
  shows "case r of
        Inl e \<Rightarrow> same_cache s s'
      | Inr (data, status) \<Rightarrow> stamped E data \<and> wrote activityId data s s'"
proof -
  obtain rf s1 where f: "fetchActivityData E activityId (env_str (API_USERNAME cfg))
                (env_str (API_PASSWORD cfg)) False s = (rf, s1)"
    by (cases "fetchActivityData E activityId (env_str (API_USERNAME cfg))
                (env_str (API_PASSWORD cfg)) False s")
  have c1: "same_cache s s1" using f by (rule fetchActivityData_same_cache)
  show ?thesis
  proof (cases rf)
    case (Inl e)
    then show ?thesis using a f c1 by (auto simp: fetchProcessAndStoreActivity_def)
  next
    case (Inr activityJson)
    show ?thesis
    proof (cases "truthy activityJson")
      case False
      obtain t s2 where nd: "new_Date_toISOString E s1 = (t, s2)"
        by (cases "new_Date_toISOString E s1")
      have "map_of [(''lastCheck'', JStr t), (''source'', JStr ''api-fetch-empty'')]
          ''lastCheck'' = Some (JStr t)" by simp
      note st = stamp_and_store[OF c1 nd this]
      show ?thesis
        using a f Inr False nd st by (auto simp: fetchProcessAndStoreActivity_def Let_def)
    next
      case True
      show ?thesis
      proof (cases "structActivityData E activityJson")
        case (Inl e)
        then show ?thesis
          using a f Inr True c1 by (auto simp: fetchProcessAndStoreActivity_def)
      next
        case sInr: (Inr structuredActivity)
        obtain ro s2 where o: "offload_photo E cfg activityId structuredActivity s1 = (ro, s2)"
          by (cases "offload_photo E cfg activityId structuredActivity s1")
        have c12: "same_cache s s2"
          using c1 offload_photo_same_cache[OF o] by (rule same_cache_trans)
        show ?thesis
        proof (cases ro)
          case (Inl e)
          then show ?thesis
            using a f Inr True sInr o c12 by (auto simp: fetchProcessAndStoreActivity_def)
        next
          case oInr: (Inr structured')
          obtain t s3 where nd: "new_Date_toISOString E s2 = (t, s3)"
            by (cases "new_Date_toISOString E s2")
          have "map_of (AList.update ''lastCheck'' (JStr t) structured') ''lastCheck''
              = Some (JStr t)" by (simp add: update_conv')
          note st = stamp_and_store[OF c12 nd this]
          show ?thesis
            using a f Inr True sInr o oInr nd st
            by (auto simp: fetchProcessAndStoreActivity_def Let_def)
        qed
      qed
    qed
  qed
qed

lemma redis_changed:
  "redis s' = redis s \<or> redis s' = AList.update (ACTIVITY_KEY_PREFIX @ activityId) data (redis s)
   \<Longrightarrow> map_of (redis s') key \<noteq> map_of (redis s) key \<Longrightarrow>
     key = ACTIVITY_KEY_PREFIX @ activityId \<and> map_of (redis s') key = Some data"
  by (auto simp: update_conv' split: if_splits)

text \<open>
  Claim C9. Whatever \<open>processAndCacheActivity\<close> (normalized record, confirmed-empty record
  or error record) and \<open>fetchProcessAndStoreActivity\<close> (normalized or confirmed-empty
  record) change in the store is the entry of the activity they were called for, and the
  record they leave there carries a \<open>lastCheck\<close> that \<open>toISOString\<close> made from a time.
\<close>

theorem activity_cache_writes_carry_lastCheck:
  "(map_of (redis (snd (processAndCacheActivity E cfg activityId s))) key \<noteq> map_of (redis s) key
      \<longrightarrow> key = ACTIVITY_KEY_PREFIX @ activityId
          \<and> (\<exists>data. map_of (redis (snd (processAndCacheActivity E cfg activityId s))) key
                       = Some data \<and> stamped E data))
   \<and> (map_of (redis (snd (fetchProcessAndStoreActivity E cfg activityId s))) key
        \<noteq> map_of (redis s) key
      \<longrightarrow> key = ACTIVITY_KEY_PREFIX @ activityId
          \<and> (\<exists>data. map_of (redis (snd (fetchProcessAndStoreActivity E cfg activityId s))) key
                       = Some data \<and> stamped E data))"
proof (intro conjI impI)
  obtain data s' where p: "processAndCacheActivity E cfg activityId s = (data, s')"
    by (cases "processAndCacheActivity E cfg activityId s")
  note w = processAndCacheActivity_wrote[OF p]
  assume ch: "map_of (redis (snd (processAndCacheActivity E cfg activityId s))) key
      \<noteq> map_of (redis s) key"
  have "redis s' = redis s
      \<or> redis s' = AList.update (ACTIVITY_KEY_PREFIX @ activityId) data (redis s)"
    using w by (simp add: wrote_def)
  from redis_changed[OF this] ch p w
  show "key = ACTIVITY_KEY_PREFIX @ activityId"
    and "\<exists>data. map_of (redis (snd (processAndCacheActivity E cfg activityId s))) key
                       = Some data \<and> stamped E data"
    by auto
next
  obtain r s' where p: "fetchProcessAndStoreActivity E cfg activityId s = (r, s')"
    by (cases "fetchProcessAndStoreActivity E cfg activityId s")
  note w = fetchProcessAndStoreActivity_wrote[OF p]
  assume ch: "map_of (redis (snd (fetchProcessAndStoreActivity E cfg activityId s))) key
        \<noteq> map_of (redis s) key"
  have "\<exists>data. stamped E data \<and> wrote activityId data s s'"
    using w ch p by (cases r) (auto simp: same_cache_def)
  then obtain data where d: "stamped E data" "wrote activityId data s s'" by blast
  have "redis s' = redis s
      \<or> redis s' = AList.update (ACTIVITY_KEY_PREFIX @ activityId) data (redis s)"
    using d(2) by (simp add: wrote_def)
  from redis_changed[OF this] ch p d(1)
  show "key = ACTIVITY_KEY_PREFIX @ activityId"
    and "\<exists>data. map_of (redis (snd (fetchProcessAndStoreActivity E cfg activityId s))) key
                       = Some data \<and> stamped E data"
    by auto
qed

theorem activity_cache_writes_carry_lastCheck_witness:
  "map_of (redis (snd (processAndCacheActivity example_env example_cfg ''2'' example_sys)))
       ''activity:2''
     = Some (JObj [(''lastCheck'', JStr ''t7200000''), (''source'', JStr ''api-fetch-empty'')])
   \<and> stamped example_env
        (JObj [(''lastCheck'', JStr ''t7200000''), (''source'', JStr ''api-fetch-empty'')])
   \<and> map_of (redis (snd (processAndCacheActivity example_env
                (example_cfg\<lparr>API_PASSWORD := None\<rparr>) ''2'' example_sys))) ''activity:2''
     = Some (JObj [(''lastCheck'', JStr ''t7200000''),
                   (''error'', JStr ''Failed to fetch or process'')])
   \<and> stamped example_env
        (JObj [(''lastCheck'', JStr ''t7200000''),
               (''error'', JStr ''Failed to fetch or process'')])
   \<and> map_of (redis (snd (fetchProcessAndStoreActivity example_env example_cfg ''2''
                example_sys))) ''activity:2''
     = Some (JObj [(''lastCheck'', JStr ''t7200000''), (''source'', JStr ''api-fetch-empty'')])"
proof -
  have a: "map_of (redis (snd (processAndCacheActivity example_env example_cfg ''2''
        example_sys))) ''activity:2''
     = Some (JObj [(''lastCheck'', JStr ''t7200000''), (''source'', JStr ''api-fetch-empty'')])"
    by (simp add: eval_defs)
  have b: "map_of (redis (snd (processAndCacheActivity example_env
                (example_cfg\<lparr>API_PASSWORD := None\<rparr>) ''2'' example_sys))) ''activity:2''
     = Some (JObj [(''lastCheck'', JStr ''t7200000''),
                   (''error'', JStr ''Failed to fetch or process'')])"
    by (simp add: eval_defs)
  have c: "map_of (redis (snd (fetchProcessAndStoreActivity example_env example_cfg ''2''
                example_sys))) ''activity:2''
     = Some (JObj [(''lastCheck'', JStr ''t7200000''), (''source'', JStr ''api-fetch-empty'')])"
    by (simp add: eval_defs)
  have old: "map_of (redis example_sys) ''activity:2''
     = Some (JObj [(''name'', JStr ''Go''), (''lastCheck'', JStr ''t0'')])"
    by (simp add: example_sys_def example_store_def)
  from activity_cache_writes_carry_lastCheck
    [where E = example_env and cfg = example_cfg and activityId = "''2''" and s = example_sys
      and key = "''activity:2''"] a old
  have s1: "stamped example_env
      (JObj [(''lastCheck'', JStr ''t7200000''), (''source'', JStr ''api-fetch-empty'')])"
    by simp
  from activity_cache_writes_carry_lastCheck
    [where E = example_env and cfg = "example_cfg\<lparr>API_PASSWORD := None\<rparr>"
      and activityId = "''2''" and s = example_sys and key = "''activity:2''"] b old
  have s2: "stamped example_env
      (JObj [(''lastCheck'', JStr ''t7200000''),
             (''error'', JStr ''Failed to fetch or process'')])"
    by simp
  show ?thesis using a b c s1 s2 by simp
qed

section \<open>Bulk population\<close>

lemma getActivityData_same_cache:
  "getActivityData E activityId s = (v, s') \<Longrightarrow> same_cache s s'"
  by (auto simp: getActivityData_def redis_op_def same_cache_def
      split: if_splits bool.splits option.splits)

lemma getActivityData_reliable:
  "redis_reliable E \<Longrightarrow> fst (getActivityData E activityId s) = entry s activityId"
  by (simp add: getActivityData_def redis_op_def redis_reliable_def entry_def
      split: option.splits)

lemma getActivityData_answered:
  "redisClient E \<Longrightarrow> \<not> redis_faults E (redis_ops s) \<Longrightarrow>
   fst (getActivityData E activityId s) = entry s activityId"
  by (simp add: getActivityData_def redis_op_def entry_def split: option.splits)


lemma processAndCacheActivity_events:
  "events (snd (processAndCacheActivity E cfg activityId s))
     = events s @ [Processing activityId]"
proof -
  obtain data s' where p: "processAndCacheActivity E cfg activityId s = (data, s')"
    by (cases "processAndCacheActivity E cfg activityId s")
  from processAndCacheActivity_wrote[OF p] show ?thesis
    using p by (simp add: wrote_def)
qed

lemma processAndCacheActivity_redis_other:
  "key \<noteq> ACTIVITY_KEY_PREFIX @ activityId \<Longrightarrow>
   map_of (redis (snd (processAndCacheActivity E cfg activityId s))) key = map_of (redis s) key"
proof -
  assume k: "key \<noteq> ACTIVITY_KEY_PREFIX @ activityId"
  obtain data s' where p: "processAndCacheActivity E cfg activityId s = (data, s')"
    by (cases "processAndCacheActivity E cfg activityId s")
  from processAndCacheActivity_wrote[OF p] show ?thesis
    using p k by (auto simp: wrote_def update_conv')
qed

lemma initializeClubCache_job_events:
  "events (initializeClubCache_job E cfg activityId s)
     = events s @ (if needs_population (fst (getActivityData E activityId s))
                   then [Processing activityId] else [])"
proof -
  obtain v s1 where g: "getActivityData E activityId s = (v, s1)"
    by (cases "getActivityData E activityId s")
  have "events s1 = events s"
    using getActivityData_same_cache[OF g] by (simp add: same_cache_def)
  then show ?thesis
    using g by (simp add: initializeClubCache_job_def needs_population_def
        processAndCacheActivity_events)
qed

lemma initializeClubCache_job_keeps:
  assumes rel: "redis_reliable E"
    and v: "map_of (redis s) (ACTIVITY_KEY_PREFIX @ activityId) = Some v"
    and ok: "\<not> needs_population v"
  shows "map_of (redis (initializeClubCache_job E cfg i s)) (ACTIVITY_KEY_PREFIX @ activityId)
           = Some v
         \<and> count_list (events (initializeClubCache_job E cfg i s)) (Processing activityId)
           = count_list (events s) (Processing activityId)"
proof -
  obtain c s1 where g: "getActivityData E i s = (c, s1)"
    by (cases "getActivityData E i s")
  have sc: "redis s1 = redis s" "events s1 = events s"
    using getActivityData_same_cache[OF g] by (simp_all add: same_cache_def)
  show ?thesis
  proof (cases "i = activityId")
    case True
    have "c = v"
      using getActivityData_reliable[OF rel, of i s] g v True by (simp add: entry_def)
    then show ?thesis
      using g ok sc v True by (simp add: initializeClubCache_job_def needs_population_def)
  next
    case False
    then have k: "ACTIVITY_KEY_PREFIX @ activityId \<noteq> ACTIVITY_KEY_PREFIX @ i" by simp
    show ?thesis
      using g sc v False processAndCacheActivity_redis_other[OF k, of E cfg s1]
      by (simp add: initializeClubCache_job_def processAndCacheActivity_events)
  qed
qed

lemma initializeClubCache_loop_keeps:
  "redis_reliable E \<Longrightarrow> \<not> needs_population v \<Longrightarrow>
   map_of (redis s) (ACTIVITY_KEY_PREFIX @ activityId) = Some v \<Longrightarrow>
     map_of (redis (initializeClubCache_loop E cfg i s)) (ACTIVITY_KEY_PREFIX @ activityId)
           = Some v
         \<and> count_list (events (initializeClubCache_loop E cfg i s)) (Processing activityId)
           = count_list (events s) (Processing activityId)"
proof (induction E cfg i s rule: initializeClubCache_loop.induct)
  case (1 E cfg i s)
  show ?case
  proof (cases "i \<le> MAX_ACTIVITY_ID_SCAN cfg")
    case False
    then show ?thesis
      using "1.prems" by (subst (1 2) initializeClubCache_loop.simps) simp
  next
    case True
    let ?s1 = "initializeClubCache_job E cfg (String_of i) s"
    note job = initializeClubCache_job_keeps[OF "1.prems"(1) "1.prems"(3) "1.prems"(2),
        of cfg "String_of i"]
    note IH = "1.IH"[OF True "1.prems"(1) "1.prems"(2) job[THEN conjunct1]]
    have unf: "initializeClubCache_loop E cfg i s = initializeClubCache_loop E cfg (i + 1) ?s1"
      using True by (subst initializeClubCache_loop.simps) simp
    show ?thesis
      unfolding unf using IH job by simp
  qed
qed

lemma initializeClubCache_job_other:
  "key \<noteq> ACTIVITY_KEY_PREFIX @ activityId \<Longrightarrow>
   map_of (redis (initializeClubCache_job E cfg activityId s)) key = map_of (redis s) key"
proof -
  assume k: "key \<noteq> ACTIVITY_KEY_PREFIX @ activityId"
  obtain v s1 where g: "getActivityData E activityId s = (v, s1)"
    by (cases "getActivityData E activityId s")
  have "redis s1 = redis s"
    using getActivityData_same_cache[OF g] by (simp add: same_cache_def)
  then show ?thesis
    using g processAndCacheActivity_redis_other[OF k, of E cfg s1]
    by (simp add: initializeClubCache_job_def)
qed

lemma initializeClubCache_job_untouched:
  assumes "redisClient E" "\<not> redis_faults E (redis_ops s)"
    "\<not> needs_population (entry s activityId)"
  shows "redis (initializeClubCache_job E cfg activityId s) = redis s"
proof -
  obtain v s1 where g: "getActivityData E activityId s = (v, s1)"
    by (cases "getActivityData E activityId s")
  have r: "redis s1 = redis s"
    using getActivityData_same_cache[OF g] by (simp add: same_cache_def)
  have "v = entry s activityId"
    using getActivityData_answered[OF assms(1,2), of activityId] g by simp
  then show ?thesis
    using g r assms(3) by (simp add: initializeClubCache_job_def needs_population_def)
qed

lemma initializeClubCache_jobs_keep:
  "redis_reliable E \<Longrightarrow> \<not> needs_population v \<Longrightarrow>
   map_of (redis s) (ACTIVITY_KEY_PREFIX @ activityId) = Some v \<Longrightarrow>
     map_of (redis (fold (initializeClubCache_job E cfg) ids s)) (ACTIVITY_KEY_PREFIX @ activityId)
           = Some v
         \<and> count_list (events (fold (initializeClubCache_job E cfg) ids s))
              (Processing activityId)
           = count_list (events s) (Processing activityId)"
proof (induction ids arbitrary: s)
  case Nil
  then show ?case by simp
next
  case (Cons i ids)
  note job = initializeClubCache_job_keeps[OF Cons.prems(1) Cons.prems(3) Cons.prems(2),
      of cfg i]
  note IH = Cons.IH[OF Cons.prems(1) Cons.prems(2) job[THEN conjunct1]]
  show ?case
    using IH job by simp
qed

text \<open>
  Claim C5, amended. A job of \<open>initializeClubCache\<close> calls \<open>processAndCacheActivity\<close> exactly
  when the entry it reads is missing, empty, lacks \<open>lastCheck\<close> or is marked errored. When
  Redis answers every command, an entry that carries a \<open>lastCheck\<close> and no error marker is
  the same after \<open>initializeClubCache\<close> as before (so its \<open>lastCheck\<close> is unchanged), and
  no fetch-and-store job has run for its identifier; this holds for a first run and for a
  second run that follows it at once. The condition on Redis is needed: a read that fails
  returns \<open>null\<close>, which the job takes for a missing entry. The same holds of the jobs run
  one after the other in any order and any number of times. And at whatever moment the
  limiter starts a job, a job whose read succeeds on an entry with a \<open>lastCheck\<close> and no
  error marker leaves the store as it is, and no job changes the entry of another
  identifier.
\<close>

theorem populateAll_leaves_checked_entries:
  "events (initializeClubCache_job E cfg activityId s)
     = events s @ (if needs_population (fst (getActivityData E activityId s))
                   then [Processing activityId] else [])
   \<and> (redis_reliable E \<and> map_of (redis s) (ACTIVITY_KEY_PREFIX @ activityId) = Some v
        \<and> \<not> needs_population v
      \<longrightarrow> map_of (redis (initializeClubCache E cfg s)) (ACTIVITY_KEY_PREFIX @ activityId) = Some v
          \<and> count_list (events (initializeClubCache E cfg s)) (Processing activityId)
            = count_list (events s) (Processing activityId))
   \<and> (redis_reliable E
        \<and> map_of (redis (initializeClubCache E cfg s)) (ACTIVITY_KEY_PREFIX @ activityId) = Some v
        \<and> \<not> needs_population v
      \<longrightarrow> map_of (redis (initializeClubCache E cfg (initializeClubCache E cfg s)))
             (ACTIVITY_KEY_PREFIX @ activityId) = Some v
          \<and> count_list (events (initializeClubCache E cfg (initializeClubCache E cfg s)))
              (Processing activityId)
            = count_list (events (initializeClubCache E cfg s)) (Processing activityId))
   \<and> (redis_reliable E \<and> map_of (redis s) (ACTIVITY_KEY_PREFIX @ activityId) = Some v
        \<and> \<not> needs_population v
      \<longrightarrow> map_of (redis (fold (initializeClubCache_job E cfg) ids s))
             (ACTIVITY_KEY_PREFIX @ activityId) = Some v
          \<and> count_list (events (fold (initializeClubCache_job E cfg) ids s))
              (Processing activityId)
            = count_list (events s) (Processing activityId))
   \<and> (redisClient E \<and> \<not> redis_faults E (redis_ops s)
        \<and> \<not> needs_population (entry s activityId)
      \<longrightarrow> redis (initializeClubCache_job E cfg activityId s) = redis s)
   \<and> (key \<noteq> ACTIVITY_KEY_PREFIX @ activityId
      \<longrightarrow> map_of (redis (initializeClubCache_job E cfg activityId s)) key
            = map_of (redis s) key)"
  using initializeClubCache_job_events[of E cfg activityId s]
    initializeClubCache_loop_keeps[of E v s activityId cfg "MIN_ACTIVITY_ID_SCAN cfg"]
    initializeClubCache_loop_keeps[of E v "initializeClubCache E cfg s" activityId cfg
      "MIN_ACTIVITY_ID_SCAN cfg"]
    initializeClubCache_jobs_keep[of E v s activityId cfg ids]
    initializeClubCache_job_untouched[of E s activityId cfg]
    initializeClubCache_job_other[of key activityId E cfg s]
  unfolding initializeClubCache_def by blast

theorem populateAll_leaves_checked_entries_witness:
  "snd (processAndCacheActivity (serving_env 1000 (\<lambda>n. False)) example_cfg ''1'' fresh_sys)
     = stored_sys
   \<and> events (initializeClubCache (serving_env 1000 (\<lambda>n. False)) example_cfg stored_sys)
     = [Processing ''1'', Processing ''2'', Processing ''3'', Processing ''4'']
   \<and> map_of (redis (initializeClubCache (serving_env 1000 (\<lambda>n. False)) example_cfg stored_sys))
        ''activity:1''
     = map_of (redis stored_sys) ''activity:1''
   \<and> map_of (redis (initializeClubCache (serving_env 1000 (\<lambda>n. False)) example_cfg
         (initializeClubCache (serving_env 1000 (\<lambda>n. False)) example_cfg stored_sys)))
        ''activity:1''
     = map_of (redis stored_sys) ''activity:1''
   \<and> map_of (redis (fold (initializeClubCache_job (serving_env 1000 (\<lambda>n. False)) example_cfg)
         [''4'', ''1'', ''3'', ''1''] stored_sys)) ''activity:1''
     = map_of (redis stored_sys) ''activity:1''
   \<and> redis (initializeClubCache_job (serving_env 1000 (\<lambda>n. False)) example_cfg ''1''
        stored_sys)
     = redis stored_sys
   \<and> map_of (redis (initializeClubCache_job (serving_env 1000 (\<lambda>n. False)) example_cfg ''3''
        stored_sys)) ''activity:1''
     = map_of (redis stored_sys) ''activity:1''"
proof -
  let ?E = "serving_env 1000 (\<lambda>n. False)"
  let ?v = "JObj [(''name'', JStr ''Chess''),
                  (''photo'', JStr ''https://s3.example.com/cca/files/activity-1-a.avif''),
                  (''lastCheck'', JStr ''t0'')]"
  have run: "snd (processAndCacheActivity ?E example_cfg ''1'' fresh_sys) = stored_sys"
    by (simp add: run_defs)
  have e: "events (initializeClubCache ?E example_cfg stored_sys)
     = [Processing ''1'', Processing ''2'', Processing ''3'', Processing ''4'']"
    by (simp add: run_defs)
  have v: "map_of (redis stored_sys) (ACTIVITY_KEY_PREFIX @ ''1'') = Some ?v"
    by (simp add: stored_sys_def ACTIVITY_KEY_PREFIX_def)
  have ok: "\<not> needs_population ?v"
    by (simp add: needs_population_def truthy_field_def)
  have ok': "\<not> needs_population (entry stored_sys ''1'')"
    using v ok by (simp add: entry_def)
  have rel: "redis_reliable ?E"
    by (simp add: redis_reliable_def serving_env_def)
  have answers: "redisClient ?E" "\<not> redis_faults ?E (redis_ops stored_sys)"
    by (simp_all add: serving_env_def)
  have other: "''activity:1'' \<noteq> ACTIVITY_KEY_PREFIX @ ''3''"
    by (simp add: ACTIVITY_KEY_PREFIX_def)
  note t = populateAll_leaves_checked_entries
    [where E = ?E and cfg = example_cfg and activityId = "''1''" and s = stored_sys
      and v = ?v and key = "''activity:3''" and ids = "[''4'', ''1'', ''3'', ''1'']"]
  note t3 = populateAll_leaves_checked_entries
    [where E = ?E and cfg = example_cfg and activityId = "''3''" and s = stored_sys
      and v = ?v and key = "''activity:1''" and ids = "[]"]
  have first: "map_of (redis (initializeClubCache ?E example_cfg stored_sys))
      (ACTIVITY_KEY_PREFIX @ ''1'') = Some ?v"
    using t rel v ok by blast
  then have second: "map_of (redis (initializeClubCache ?E example_cfg
         (initializeClubCache ?E example_cfg stored_sys)))
      (ACTIVITY_KEY_PREFIX @ ''1'') = Some ?v"
    using t rel ok by blast
  have order: "map_of (redis (fold (initializeClubCache_job ?E example_cfg)
         [''4'', ''1'', ''3'', ''1''] stored_sys)) (ACTIVITY_KEY_PREFIX @ ''1'') = Some ?v"
    using t rel v ok by blast
  have job: "redis (initializeClubCache_job ?E example_cfg ''1'' stored_sys)
     = redis stored_sys"
    using t answers ok' by blast
  have job3: "map_of (redis (initializeClubCache_job ?E example_cfg ''3'' stored_sys))
        ''activity:1''
     = map_of (redis stored_sys) ''activity:1''"
    using t3 other by blast
  show ?thesis
    using run e v first second order job job3 by (simp add: ACTIVITY_KEY_PREFIX_def)
qed

text \<open>
  Without the condition on Redis the claim fails. In the run below the range is the one
  identifier 1 and the third command sent to Redis fails. The first call of
  \<open>initializeClubCache\<close> on the empty store fetches the activity, uploads its image and
  stores the record with \<open>lastCheck\<close> \<open>t0\<close>, a time that \<open>getTime\<close> reads, and no error
  marker. In the second call, which follows at once, the read of that entry fails,
  \<open>getActivityData\<close> returns \<open>null\<close>, and the job fetches and stores the activity again: the
  entry's \<open>lastCheck\<close> becomes \<open>t1000\<close> and its image is a second upload.
\<close>

theorem populateAll_refetches_after_failed_read:
  "initializeClubCache (serving_env 1000 (\<lambda>n. n = 2)) one_cfg fresh_sys
     = stored_sys\<lparr>redis_ops := 2\<rparr>
   \<and> entry stored_sys ''1''
     = JObj [(''name'', JStr ''Chess''),
             (''photo'', JStr ''https://s3.example.com/cca/files/activity-1-a.avif''),
             (''lastCheck'', JStr ''t0'')]
   \<and> getTime (serving_env 1000 (\<lambda>n. n = 2)) (JStr ''t0'') = Some 0
   \<and> \<not> needs_population (entry stored_sys ''1'')
   \<and> entry (initializeClubCache (serving_env 1000 (\<lambda>n. n = 2)) one_cfg
              (initializeClubCache (serving_env 1000 (\<lambda>n. n = 2)) one_cfg fresh_sys)) ''1''
     = JObj [(''name'', JStr ''Chess''),
             (''photo'', JStr ''https://s3.example.com/cca/files/activity-1-b.avif''),
             (''lastCheck'', JStr ''t1000'')]
   \<and> events (initializeClubCache (serving_env 1000 (\<lambda>n. n = 2)) one_cfg
              (initializeClubCache (serving_env 1000 (\<lambda>n. n = 2)) one_cfg fresh_sys))
     = [Processing ''1'', Processing ''1'']"
proof -
  let ?E = "serving_env 1000 (\<lambda>n. n = 2)"
  have first: "initializeClubCache ?E one_cfg fresh_sys = stored_sys\<lparr>redis_ops := 2\<rparr>"
    by (simp add: run_defs)
  have e: "entry stored_sys ''1''
     = JObj [(''name'', JStr ''Chess''),
             (''photo'', JStr ''https://s3.example.com/cca/files/activity-1-a.avif''),
             (''lastCheck'', JStr ''t0'')]"
    by (simp add: entry_def stored_sys_def ACTIVITY_KEY_PREFIX_def)
  have t: "getTime ?E (JStr ''t0'') = Some 0"
    by (simp add: serving_env_def)
  have n: "\<not> needs_population (entry stored_sys ''1'')"
    unfolding e by (simp add: needs_population_def truthy_field_def)
  have second: "initializeClubCache ?E one_cfg (stored_sys\<lparr>redis_ops := 2\<rparr>)
     = \<lparr>inMemoryCookie = Some ''ASP.NET_SessionId=abc; .ASPXFORMSAUTH=tok'',
        cookieFile = Some ''ASP.NET_SessionId=abc; .ASPXFORMSAUTH=tok'',
        calls = 5, fs_ops = 3, sleeps = [],
        redis = [(''activity:1'',
                  JObj [(''name'', JStr ''Chess''),
                        (''photo'', JStr ''https://s3.example.com/cca/files/activity-1-b.avif''),
                        (''lastCheck'', JStr ''t1000'')])],
        redis_ops = 4,
        s3_objects = [''files/activity-1-b.avif'', ''files/activity-1-a.avif''], s3_ops = 2,
        ticks = 2, uuid_n = 2, staffs = [], events = [Processing ''1'', Processing ''1'']\<rparr>"
    by (simp add: run_defs)
  show ?thesis
    unfolding first second using e t n
    by (simp add: entry_def ACTIVITY_KEY_PREFIX_def)
qed

section \<open>Orphan cleanup\<close>

lemma getActivityData_same_s3: "getActivityData E i s = (v, s') \<Longrightarrow> same_s3 s s'"
  by (auto simp: getActivityData_def redis_op_def same_s3_def
      split: if_splits bool.splits option.splits)

lemma getAllActivityKeys_same:
  "getAllActivityKeys E s = (ks, s') \<Longrightarrow> same_s3 s s' \<and> same_cache s s'"
  by (auto simp: getAllActivityKeys_def redis_op_def same_s3_def same_cache_def
      split: if_splits bool.splits)



lemma same_s3_refl [simp]: "same_s3 s s"
  by (simp add: same_s3_def)

lemma same_s3_trans: "same_s3 s s1 \<Longrightarrow> same_s3 s1 s2 \<Longrightarrow> same_s3 s s2"
  by (simp add: same_s3_def)

lemma referencedS3Urls_step:
  "referencedS3Urls E cfg (k # keys) urls s =
     (case getActivityData E (drop (length ACTIVITY_KEY_PREFIX) k) s of
        (v, s1) \<Rightarrow>
          referencedS3Urls E cfg keys
            (case referenced_photo cfg v of None \<Rightarrow> urls | Some p \<Rightarrow> List.insert p urls) s1)"
  by (simp add: Let_def split: prod.splits option.splits)

lemma referencedS3Urls_same:
  "same_s3 s (snd (referencedS3Urls E cfg keys urls s))
   \<and> same_cache s (snd (referencedS3Urls E cfg keys urls s))"
proof (induction keys arbitrary: urls s)
  case Nil
  then show ?case by simp
next
  case (Cons k keys)
  obtain v s1 where g: "getActivityData E (drop (length ACTIVITY_KEY_PREFIX) k) s = (v, s1)"
    by (cases "getActivityData E (drop (length ACTIVITY_KEY_PREFIX) k) s")
  note a = getActivityData_same_s3[OF g] getActivityData_same_cache[OF g]
  show ?case
    unfolding referencedS3Urls_step g prod.case
    using Cons.IH[of s1] a by (blast intro: same_s3_trans same_cache_trans)
qed


lemma listS3Objects_eq:
  "listS3Objects E cfg prefix s = (ks, s') \<Longrightarrow>
     s3_objects s' = s3_objects s \<and> set ks \<subseteq> set (s3_objects s)"
  by (auto simp: listS3Objects_def s3_op_def split: if_splits bool.splits)



lemma delete_each_keeps:
  "key \<notin> set keys \<Longrightarrow>
   (key \<in> set (s3_objects (snd (delete_each E keys n s)))) = (key \<in> set (s3_objects s))"
proof (induction keys arbitrary: n s)
  case Nil
  then show ?case by simp
next
  case (Cons k keys)
  then show ?case
    by (auto simp: s3_op_def split: bool.splits)
qed


lemma deleteS3Objects_keeps:
  "key \<notin> set keys \<Longrightarrow>
   (key \<in> set (s3_objects (snd (deleteS3Objects E cfg keys s)))) = (key \<in> set (s3_objects s))"
  using delete_each_keeps[of key keys E 0 s]
  by (cases "delete_each E keys 0 s") (simp add: deleteS3Objects_def)

lemma orphanedObjectKeys_set:
  "set (orphanedObjectKeys cfg referenced keys)
     = {k \<in> set keys. constructS3Url cfg k \<noteq> [] \<and> constructS3Url cfg k \<notin> set referenced}"
  by (auto simp: orphanedObjectKeys_def Let_def)

lemma cleanup_selection_state:
  "cleanup_selection E cfg s = (orphaned, s1) \<Longrightarrow>
     s3_objects s1 = s3_objects s \<and> same_cache s s1"
proof -
  assume a: "cleanup_selection E cfg s = (orphaned, s1)"
  obtain ks sa where k: "getAllActivityKeys E s = (ks, sa)"
    by (cases "getAllActivityKeys E s")
  obtain rf sb where r: "referencedS3Urls E cfg ks [] sa = (rf, sb)"
    by (cases "referencedS3Urls E cfg ks [] sa")
  obtain ls sc where l: "listS3Objects E cfg
      (s3ObjectListPrefix cfg) sb = (ls, sc)"
    by (cases "listS3Objects E cfg
      (s3ObjectListPrefix cfg) sb")
  have s1: "s1 = sc"
    using a k r l by (auto simp: cleanup_selection_def Let_def split: if_splits)
  have "same_s3 s sa" "same_cache s sa" using getAllActivityKeys_same[OF k] by auto
  moreover have "same_s3 sa sb" "same_cache sa sb"
    using referencedS3Urls_same[of sa E cfg ks "[]"] r by auto
  moreover have "s3_objects sc = s3_objects sb" "same_cache sb sc"
    using l by (auto simp: listS3Objects_def s3_op_def same_cache_def
        split: if_splits bool.splits)
  ultimately show ?thesis
    unfolding s1 by (auto simp: same_s3_def same_cache_def)
qed

lemma cleanup_selection_subset:
  "set (fst (cleanup_selection E cfg s))
     \<subseteq> {k \<in> set (s3_objects s). constructS3Url cfg k \<noteq> []}"
proof -
  obtain ks sa where k: "getAllActivityKeys E s = (ks, sa)"
    by (cases "getAllActivityKeys E s")
  obtain rf sb where r: "referencedS3Urls E cfg ks [] sa = (rf, sb)"
    by (cases "referencedS3Urls E cfg ks [] sa")
  obtain ls sc where l: "listS3Objects E cfg
      (s3ObjectListPrefix cfg) sb = (ls, sc)"
    by (cases "listS3Objects E cfg
      (s3ObjectListPrefix cfg) sb")
  have "same_s3 s sa" using getAllActivityKeys_same[OF k] by auto
  moreover have "same_s3 sa sb"
    using referencedS3Urls_same[of sa E cfg ks "[]"] r by auto
  ultimately have "s3_objects sb = s3_objects s" by (simp add: same_s3_def)
  then have "set ls \<subseteq> set (s3_objects s)" using listS3Objects_eq[OF l] by simp
  then show ?thesis
    using k r l by (auto simp: cleanup_selection_def Let_def orphanedObjectKeys_set)
qed

text \<open>
  Claim C10. Every key that the cleanup selects for deletion has a public URL that is not
  empty; an object whose URL is empty is still in the bucket after the cleanup; and when
  the endpoint or the bucket name is not set, the cleanup selects nothing and leaves the
  bucket as it is.
\<close>

theorem cleanup_never_deletes_unaddressable:
  "(key \<in> set (fst (cleanup_selection E cfg s)) \<longrightarrow> constructS3Url cfg key \<noteq> [])
   \<and> (key \<in> set (s3_objects s) \<and> constructS3Url cfg key = []
        \<longrightarrow> key \<in> set (s3_objects (cleanupOrphanedS3Images E cfg s)))
   \<and> (\<not> str_truthy (S3_ENDPOINT cfg) \<or> \<not> str_truthy (S3_BUCKET_NAME cfg)
        \<longrightarrow> fst (cleanup_selection E cfg s) = []
            \<and> s3_objects (cleanupOrphanedS3Images E cfg s) = s3_objects s)"
proof (intro conjI impI)
  assume "key \<in> set (fst (cleanup_selection E cfg s))"
  then show "constructS3Url cfg key \<noteq> []"
    using cleanup_selection_subset[of E cfg s] by auto
next
  assume a: "key \<in> set (s3_objects s) \<and> constructS3Url cfg key = []"
  obtain orphaned s1 where c: "cleanup_selection E cfg s = (orphaned, s1)"
    by (cases "cleanup_selection E cfg s")
  have notin: "key \<notin> set orphaned"
    using a c cleanup_selection_subset[of E cfg s] by auto
  have "s3_objects s1 = s3_objects s" using cleanup_selection_state[OF c] by simp
  then show "key \<in> set (s3_objects (cleanupOrphanedS3Images E cfg s))"
    using a c deleteS3Objects_keeps[OF notin, of E cfg s1]
    by (simp add: cleanupOrphanedS3Images_def)
next
  assume u: "\<not> str_truthy (S3_ENDPOINT cfg) \<or> \<not> str_truthy (S3_BUCKET_NAME cfg)"
  then have "\<And>k. constructS3Url cfg k = []" by (auto simp: constructS3Url_def)
  then show e: "fst (cleanup_selection E cfg s) = []"
    using cleanup_selection_subset[of E cfg s] by (cases "fst (cleanup_selection E cfg s)") auto
  obtain orphaned s1 where c: "cleanup_selection E cfg s = (orphaned, s1)"
    by (cases "cleanup_selection E cfg s")
  show "s3_objects (cleanupOrphanedS3Images E cfg s) = s3_objects s"
    using e c cleanup_selection_state[OF c] by (simp add: cleanupOrphanedS3Images_def)
qed

theorem cleanup_never_deletes_unaddressable_witness:
  "constructS3Url (example_cfg\<lparr>S3_ENDPOINT := None\<rparr>) ''files/c.avif'' = []
   \<and> fst (cleanup_selection example_env (example_cfg\<lparr>S3_ENDPOINT := None\<rparr>) example_sys) = []
   \<and> s3_objects (cleanupOrphanedS3Images example_env (example_cfg\<lparr>S3_ENDPOINT := None\<rparr>)
        example_sys)
     = [''files/a.avif'', ''files/b.avif'', ''files/c.avif'']
   \<and> constructS3Url example_cfg ''files/c.avif'' = ''https://s3.example.com/cca/files/c.avif''
   \<and> fst (cleanup_selection example_env example_cfg example_sys) = [''files/c.avif'']"
  using cleanup_never_deletes_unaddressable
    [where key = "''files/c.avif''" and E = example_env
      and cfg = "example_cfg\<lparr>S3_ENDPOINT := None\<rparr>" and s = example_sys]
    cleanup_never_deletes_unaddressable
    [where key = "''files/c.avif''" and E = example_env and cfg = example_cfg
      and s = example_sys]
  by (simp add: eval_defs)

























section \<open>Staleness sweep\<close>
















section \<open>Staff aggregate\<close>

lemma getStaffData_same_cache: "getStaffData E s = (v, s') \<Longrightarrow> same_cache s s'"
  by (auto simp: getStaffData_def redis_op_def same_cache_def
      split: if_splits bool.splits option.splits)

lemma getStaffData_value:
  "fst (getStaffData E s) = JNull \<or> map_of (redis s) STAFF_KEY = Some (fst (getStaffData E s))"
  by (auto simp: getStaffData_def redis_op_def split: if_splits bool.splits option.splits)

lemma setStaffData_events [simp]: "events (setStaffData E data s) = events s"
  by (simp add: setStaffData_def redis_op_def split: bool.splits)

lemma setStaffData_redis:
  "redis (setStaffData E data s) = redis s
   \<or> redis (setStaffData E data s) = AList.update STAFF_KEY data (redis s)"
  by (simp add: setStaffData_def redis_op_def split: bool.splits)

lemma setStaffData_works:
  "redisClient E \<Longrightarrow> \<not> redis_faults E (redis_ops s) \<Longrightarrow>
   redis (setStaffData E data s) = AList.update STAFF_KEY data (redis s)"
  by (simp add: setStaffData_def redis_op_def)

lemma new_Date_toISOString_events [simp]:
  "events (snd (new_Date_toISOString E s)) = events s"
  by (simp add: new_Date_toISOString_def)

lemma truthy_field_JObj: "truthy_field v k \<Longrightarrow> \<exists>kvs. v = JObj kvs"
  by (cases v) (auto simp: truthy_field_def)

lemma needsUpdate_no_lastCheck:
  "\<not> truthy_field cachedStaffData ''lastCheck'' \<Longrightarrow>
   needsUpdate E cfg forceUpdate cachedStaffData now"
  by (simp add: needsUpdate_def)

lemma initializeOrUpdateStaffCache_events:
  "events (initializeOrUpdateStaffCache E cfg forceUpdate s)
     = events s @
       (if needsUpdate E cfg forceUpdate (fst (getStaffData E s))
             (clock E (ticks (snd (getStaffData E s))))
           \<and> str_truthy (API_USERNAME cfg) \<and> str_truthy (API_PASSWORD cfg)
           \<and> str_truthy (FIXED_STAFF_ACTIVITY_ID cfg)
        then [StaffFetching] else [])"
proof -
  obtain c s1 where g: "getStaffData E s = (c, s1)" by (cases "getStaffData E s")
  have e1: "events s1 = events s"
    using getStaffData_same_cache[OF g] by (simp add: same_cache_def)
  let ?s2 = "s1\<lparr>ticks := ticks s1 + 1\<rparr>"
  let ?s2' = "?s2\<lparr>events := events ?s2 @ [StaffFetching]\<rparr>"
  obtain rf s3 where f: "fetchActivityData E (env_str (FIXED_STAFF_ACTIVITY_ID cfg))
       (env_str (API_USERNAME cfg)) (env_str (API_PASSWORD cfg)) False ?s2' = (rf, s3)"
    by (cases "fetchActivityData E (env_str (FIXED_STAFF_ACTIVITY_ID cfg))
       (env_str (API_USERNAME cfg)) (env_str (API_PASSWORD cfg)) False ?s2'")
  have e3: "events s3 = events s @ [StaffFetching]"
    using fetchActivityData_same_cache[OF f] e1 by (simp add: same_cache_def)
  show ?thesis
    using g f e1 e3
    by (auto simp: initializeOrUpdateStaffCache_def Date_now_def Let_def
        new_Date_toISOString_def
        split: sum.splits prod.splits option.splits jv.splits)
qed

text \<open>
  Claim C7. Let a staff refresh be due and the upstream fetch yield nothing. If the record
  read from the cache carries a \<open>lastCheck\<close>, that record is written back with a new
  \<open>lastCheck\<close> and nothing else changed: the same keys in the same order, and the same
  value under every other key; it is the only write, and it goes to the staff key. If the
  record read carries no \<open>lastCheck\<close>, nothing is written. And if the store holds no staff
  record with a \<open>lastCheck\<close>, the store is unchanged and a following call that is not
  forced fetches again.
\<close>

theorem staff_refresh_upstream_absent:
  assumes read: "getStaffData E s = (cachedStaffData, s1)"
    and due: "needsUpdate E cfg forceUpdate cachedStaffData (clock E (ticks s1))"
    and creds: "str_truthy (API_USERNAME cfg) \<and> str_truthy (API_PASSWORD cfg)
                 \<and> str_truthy (FIXED_STAFF_ACTIVITY_ID cfg)"
    and absent: "fetchActivityData E (env_str (FIXED_STAFF_ACTIVITY_ID cfg))
         (env_str (API_USERNAME cfg)) (env_str (API_PASSWORD cfg)) False
         (s1\<lparr>ticks := ticks s1 + 1, events := events s1 @ [StaffFetching]\<rparr>)
           = (Inr activityJson, s3)"
    and falsy: "\<not> truthy activityJson"
  shows "(truthy_field cachedStaffData ''lastCheck'' \<longrightarrow>
           (\<exists>kvs bumped.
              cachedStaffData = JObj kvs
              \<and> bumped = AList.update ''lastCheck'' (JStr (toISOString E (clock E (ticks s3)))) kvs
              \<and> initializeOrUpdateStaffCache E cfg forceUpdate s
                  = setStaffData E (JObj bumped) (s3\<lparr>ticks := ticks s3 + 1\<rparr>)
              \<and> map fst bumped = map fst kvs
              \<and> (\<forall>k. k \<noteq> ''lastCheck'' \<longrightarrow> map_of bumped k = map_of kvs k)
              \<and> (redis (initializeOrUpdateStaffCache E cfg forceUpdate s) = redis s
                  \<or> redis (initializeOrUpdateStaffCache E cfg forceUpdate s)
                      = AList.update STAFF_KEY (JObj bumped) (redis s))
              \<and> (redisClient E \<and> \<not> redis_faults E (redis_ops s3)
                  \<longrightarrow> map_of (redis (initializeOrUpdateStaffCache E cfg forceUpdate s)) STAFF_KEY
                        = Some (JObj bumped))))
       \<and> (\<not> truthy_field cachedStaffData ''lastCheck'' \<longrightarrow>
            initializeOrUpdateStaffCache E cfg forceUpdate s = s3 \<and> redis s3 = redis s)
       \<and> ((\<forall>v. map_of (redis s) STAFF_KEY = Some v \<longrightarrow> \<not> truthy_field v ''lastCheck'') \<longrightarrow>
            redis (initializeOrUpdateStaffCache E cfg forceUpdate s) = redis s
            \<and> events (initializeOrUpdateStaffCache E cfg False
                        (initializeOrUpdateStaffCache E cfg forceUpdate s))
                = events (initializeOrUpdateStaffCache E cfg forceUpdate s) @ [StaffFetching])"
proof -
  let ?run = "initializeOrUpdateStaffCache E cfg forceUpdate s"
  let ?t = "JStr (toISOString E (clock E (ticks s3)))"
  have r1: "redis s1 = redis s"
    using getStaffData_same_cache[OF read] by (simp add: same_cache_def)
  have r3: "redis s3 = redis s"
    using fetchActivityData_same_cache[OF absent] r1 by (simp add: same_cache_def)
  have A: "\<exists>kvs bumped.
              cachedStaffData = JObj kvs
              \<and> bumped = AList.update ''lastCheck'' ?t kvs
              \<and> ?run = setStaffData E (JObj bumped) (s3\<lparr>ticks := ticks s3 + 1\<rparr>)
              \<and> map fst bumped = map fst kvs
              \<and> (\<forall>k. k \<noteq> ''lastCheck'' \<longrightarrow> map_of bumped k = map_of kvs k)
              \<and> (redis ?run = redis s
                  \<or> redis ?run = AList.update STAFF_KEY (JObj bumped) (redis s))
              \<and> (redisClient E \<and> \<not> redis_faults E (redis_ops s3)
                  \<longrightarrow> map_of (redis ?run) STAFF_KEY = Some (JObj bumped))"
    if lc: "truthy_field cachedStaffData ''lastCheck''"
  proof -
    obtain kvs where kvs: "cachedStaffData = JObj kvs"
      using truthy_field_JObj[OF lc] by blast
    define bumped where "bumped = AList.update ''lastCheck'' ?t kvs"
    have dom: "''lastCheck'' \<in> fst ` set kvs"
      using lc kvs by (auto simp: truthy_field_def split: option.splits
          dest!: map_of_SomeD intro: rev_image_eqI)
    have run: "?run = setStaffData E (JObj bumped) (s3\<lparr>ticks := ticks s3 + 1\<rparr>)"
      using read due creds absent falsy lc kvs
      by (simp add: initializeOrUpdateStaffCache_def Date_now_def new_Date_toISOString_def
          bumped_def Let_def)
    have keys: "map fst bumped = map fst kvs"
      using dom unfolding bumped_def by (simp add: update_keys)
    have others: "\<forall>k. k \<noteq> ''lastCheck'' \<longrightarrow> map_of bumped k = map_of kvs k"
      unfolding bumped_def by (simp add: update_conv')
    have wr: "redis ?run = redis s \<or> redis ?run = AList.update STAFF_KEY (JObj bumped) (redis s)"
      unfolding run
      using setStaffData_redis[of E "JObj bumped" "s3\<lparr>ticks := ticks s3 + 1\<rparr>"] r3 by simp
    have ok: "redisClient E \<and> \<not> redis_faults E (redis_ops s3)
        \<longrightarrow> map_of (redis ?run) STAFF_KEY = Some (JObj bumped)"
      unfolding run
      using setStaffData_works[of E "s3\<lparr>ticks := ticks s3 + 1\<rparr>" "JObj bumped"]
      by (auto simp: update_conv')
    show ?thesis
      using kvs run keys others wr ok bumped_def by blast
  qed
  have B: "?run = s3 \<and> redis s3 = redis s"
    if "\<not> truthy_field cachedStaffData ''lastCheck''"
    using that read due creds absent falsy r3
    by (simp add: initializeOrUpdateStaffCache_def Date_now_def Let_def)
  have C: "redis ?run = redis s
      \<and> events (initializeOrUpdateStaffCache E cfg False ?run) = events ?run @ [StaffFetching]"
    if none: "\<forall>v. map_of (redis s) STAFF_KEY = Some v \<longrightarrow> \<not> truthy_field v ''lastCheck''"
  proof -
    have nl: "\<not> truthy_field (fst (getStaffData E st)) ''lastCheck''" if "redis st = redis s" for st
      using getStaffData_value[of E st] that none by (auto simp: truthy_field_def)
    have "\<not> truthy_field cachedStaffData ''lastCheck''"
      using nl[of s] read by simp
    then have run: "?run = s3" "redis ?run = redis s" using B by simp_all
    have "needsUpdate E cfg False (fst (getStaffData E ?run))
             (clock E (ticks (snd (getStaffData E ?run))))"
      using nl[OF run(2)] by (rule needsUpdate_no_lastCheck)
    then show ?thesis
      using run(2) creds by (simp add: initializeOrUpdateStaffCache_events)
  qed
  show ?thesis using A B C by blast
qed

theorem staff_refresh_upstream_absent_witness:
  "map_of (redis (initializeOrUpdateStaffCache example_env example_cfg False example_sys))
       ''staffs:all''
     = Some (JObj [(''S1'', JStr ''Ms A''), (''lastCheck'', JStr ''t7200000'')])
   \<and> redis (initializeOrUpdateStaffCache example_env example_cfg False
        (example_sys\<lparr>redis := []\<rparr>)) = []
   \<and> events (initializeOrUpdateStaffCache example_env example_cfg False
        (initializeOrUpdateStaffCache example_env example_cfg False
          (example_sys\<lparr>redis := []\<rparr>)))
     = [StaffFetching, StaffFetching]"
  using staff_refresh_upstream_absent
    [where E = example_env and s = example_sys
      and cachedStaffData = "JObj [(''S1'', JStr ''Ms A''), (''lastCheck'', JStr ''t0'')]"
      and ?s1.0 = "example_sys\<lparr>redis_ops := 1\<rparr>" and cfg = example_cfg
      and forceUpdate = False and activityJson = JNull
      and ?s3.0 = "example_sys\<lparr>redis_ops := 1, ticks := 1, events := [StaffFetching],
         calls := 1, fs_ops := 1\<rparr>"]
    staff_refresh_upstream_absent
    [where E = example_env and s = "example_sys\<lparr>redis := []\<rparr>"
      and cachedStaffData = JNull
      and ?s1.0 = "example_sys\<lparr>redis := [], redis_ops := 1\<rparr>" and cfg = example_cfg
      and forceUpdate = False and activityJson = JNull
      and ?s3.0 = "example_sys\<lparr>redis := [], redis_ops := 1, ticks := 1,
         events := [StaffFetching], calls := 1, fs_ops := 1\<rparr>"]
  by (simp add: eval_defs)

end
